theory Spec2Isabelle
  imports Main "HOL-Library.Word"
begin

section \<open>Data model of \<^verbatim>\<open>blockchain/tasks.go\<close>\<close>

text \<open>
  Byte slices (\<^verbatim>\<open>[]byte\<close>) are lists of 8-bit words; Go's \<^verbatim>\<open>nil\<close> slice and the
  empty slice are both the empty list. Errors are values carrying their message.
\<close>

type_synonym bytes = "8 word list"

datatype error = Error string

text \<open>
  Modelled from the spec: the declaration of \<^verbatim>\<open>db.Job\<close> and the constants
  \<^verbatim>\<open>jobPendingState\<close> and \<^verbatim>\<open>jobFundedState\<close> are not part of \<^verbatim>\<open>tasks.go\<close>. The
  spec gives a job record the fields jobAddress, consumer, state (Pending or Funded),
  completionRequested and completionSignature; \<^verbatim>\<open>tasks.go\<close> reads and writes them as
  \<^verbatim>\<open>JobAddress\<close>, \<^verbatim>\<open>Consumer\<close>, \<^verbatim>\<open>JobState\<close>, \<^verbatim>\<open>Completed\<close> and \<^verbatim>\<open>JobSignature\<close>.
  \<open>jobZeroState\<close> is the value the state field has in a freshly allocated
  \<^verbatim>\<open>&db.Job{}\<close>, before either constant is assigned to it.
\<close>

datatype job_state = jobZeroState | jobPendingState | jobFundedState

record Job =
  JobAddress :: bytes
  Consumer :: bytes
  JobSignature :: bytes
  JobState :: job_state
  Completed :: bool

text \<open>\<^verbatim>\<open>job := &db.Job{}\<close>: every field has its zero value.\<close>

definition zeroJob :: Job where
  "zeroJob = \<lparr>JobAddress = [], Consumer = [], JobSignature = [],
              JobState = jobZeroState, Completed = False\<rparr>"

text \<open>
  A bucket of the key-value store maps keys to values; \<^verbatim>\<open>bucket.Get\<close> returning
  \<^verbatim>\<open>nil\<close> is \<open>None\<close>. The database holds the chain bucket (the checkpoint under
  the key \<^verbatim>\<open>"lastBlock"\<close>) and the job bucket (one serialized record per job address).
  Both buckets are taken to exist, as the source does.
\<close>

type_synonym bucket = "bytes \<rightharpoonup> bytes"

record DB =
  chainBucket :: bucket
  jobBucket :: bucket

definition lastBlockKey :: bytes where
  "lastBlockKey = map (\<lambda>c. of_nat (of_char c)) ''lastBlock''"

text \<open>
  The collaborators of the store path, which \<^verbatim>\<open>tasks.go\<close> calls but does not define:
  \<^item> \<open>json_Marshal\<close>: \<^verbatim>\<open>json.Marshal(job)\<close>, the bytes or an error;
  \<^item> \<open>json_Unmarshal\<close>: \<^verbatim>\<open>json.Unmarshal(jobBytes, job)\<close>, given the bytes and the
    record it decodes into; it returns the error, if any, and the record as the call
    leaves it;
  \<^item> \<open>PutErr\<close>: the error \<^verbatim>\<open>bucket.Put(key, value)\<close> returns, if any; a rejected
    put leaves the bucket as it was;
  \<^item> \<open>DeleteErr\<close>: the error \<^verbatim>\<open>bucket.Delete(key)\<close> returns, if any.
\<close>

record storage =
  json_Marshal :: "Job \<Rightarrow> error + bytes"
  json_Unmarshal :: "bytes \<Rightarrow> Job \<Rightarrow> error option \<times> Job"
  PutErr :: "bytes \<Rightarrow> bytes \<Rightarrow> error option"
  DeleteErr :: "bytes \<Rightarrow> error option"

text \<open>
  One ledger log entry; only its \<^verbatim>\<open>Data\<close> field is read. The three event kinds are
  the three topics the loop filters by.
\<close>

datatype Log = Log (Data: bytes)

datatype event_kind = JobCreated | JobFunded | JobCompleted

text \<open>
  What the ledger answers during one iteration of the event loop:
  \<^item> \<open>blockNumber\<close>: the raw \<^verbatim>\<open>eth_blockNumber\<close> call, an error or
    \<^verbatim>\<open>common.FromHex(currentBlockHex)\<close>;
  \<^item> \<open>FilterLogs\<close>: the answer to a log query for a block range and a topic.
\<close>

record rpc =
  blockNumber :: "error + bytes"
  FilterLogs :: "int \<Rightarrow> int \<Rightarrow> event_kind \<Rightarrow> error + Log list"

text \<open>
  The observable effects of the routines, in the order they happen: lines logged at
  error level, log queries sent to the ledger with their block range, completion
  transactions handed to the contract binding (gas limit, job address, v, r, s),
  transaction-status polls with the answer received, and one-second sleeps of the
  confirmation wait. Debug-level log lines are left out.
\<close>

datatype effect =
    ErrorLogged string
  | LogsQueried event_kind int int
  | CompleteJobCalled "64 word" bytes "8 word" bytes bytes
  | StatusPolled nat "error + bool"
  | Slept

text \<open>
  The result of an iteration: it ran to its end, or a slice expression panicked, which
  ends the goroutine. Either way the database is given as persisted at that point.
\<close>

datatype outcome = Done DB | Panicked DB

fun db_of :: "outcome \<Rightarrow> DB" where
  "db_of (Done db) = db"
| "db_of (Panicked db) = db"

section \<open>Library functions used by the event loop\<close>

text \<open>\<^verbatim>\<open>new(big.Int).SetBytes(b)\<close>: the bytes read as a big-endian unsigned integer.\<close>

definition SetBytes :: "bytes \<Rightarrow> int" where
  "SetBytes bs = foldl (\<lambda>acc b. acc * 256 + uint b) 0 bs"

text \<open>
  The slice expression \<^verbatim>\<open>b[lo:hi]\<close>; \<open>None\<close> is the run-time panic for bounds out
  of range (the capacity of a log's data is taken to be its length).
\<close>

definition slice :: "bytes \<Rightarrow> nat \<Rightarrow> nat \<Rightarrow> bytes option" where
  "slice b lo hi = (if hi \<le> length b \<and> lo \<le> hi then Some (take (hi - lo) (drop lo b)) else None)"

text \<open>
  \<^verbatim>\<open>common.BytesToAddress(b).Bytes()\<close>: the last 20 bytes of \<open>b\<close>, left-padded with
  zeros to 20 bytes.
\<close>

definition BytesToAddress :: "bytes \<Rightarrow> bytes" where
  "BytesToAddress b =
     (let b' = (if length b > 20 then drop (length b - 20) b else b)
      in replicate (20 - length b') 0 @ b')"

section \<open>The event synchronization loop (\<^verbatim>\<open>processEvents\<close>)\<close>

text \<open>
  \<^verbatim>\<open>for _, l := range logs { body }\<close> inside one \<^verbatim>\<open>boltDB.Update\<close> transaction. The
  body returns the lines it logged and the bucket it leaves, or \<open>None\<close> when it panics;
  a panic rolls the transaction back, so no bucket is returned. The function passed to
  \<^verbatim>\<open>Update\<close> always returns \<^verbatim>\<open>nil\<close> and the result of \<^verbatim>\<open>Update\<close> is not looked at; the
  commit is taken to succeed.
\<close>

fun rangeLogs :: "(bucket \<Rightarrow> Log \<Rightarrow> (effect list \<times> bucket) option) \<Rightarrow> Log list \<Rightarrow> bucket
    \<Rightarrow> effect list \<times> bucket option" where
  "rangeLogs body [] b = ([], Some b)"
| "rangeLogs body (l # ls) b =
     (case body b l of
        None \<Rightarrow> ([], None)
      | Some (es, b') \<Rightarrow> (case rangeLogs body ls b' of (es', r) \<Rightarrow> (es @ es', r)))"

text \<open>
  The write shared by the Created and Funded bodies:
  \<^verbatim>\<open>if jobBytes, err := json.Marshal(job); err == nil { if err = bucket.Put(...) ... }\<close>.
\<close>

definition putJob :: "storage \<Rightarrow> bucket \<Rightarrow> bytes \<Rightarrow> Job \<Rightarrow> effect list \<times> bucket" where
  "putJob st b jobAddressBytes job =
     (case json_Marshal st job of
        Inr jobBytes \<Rightarrow>
          (case PutErr st jobAddressBytes jobBytes of
             Some err \<Rightarrow> ([ErrorLogged ''error putting job to db''], b)
           | None \<Rightarrow> ([], b(jobAddressBytes \<mapsto> jobBytes)))
      | Inl err \<Rightarrow> ([ErrorLogged ''error marshaling job''], b))"

text \<open>
  The read shared by the two bodies: a fresh record, overwritten by
  \<^verbatim>\<open>json.Unmarshal\<close> when the bucket has bytes under the key; the error of
  \<^verbatim>\<open>json.Unmarshal\<close> is not looked at.
\<close>

definition getJob :: "storage \<Rightarrow> bucket \<Rightarrow> bytes \<Rightarrow> Job" where
  "getJob st b jobAddressBytes =
     (case b jobAddressBytes of
        None \<Rightarrow> zeroJob
      | Some jobBytes \<Rightarrow> snd (json_Unmarshal st jobBytes zeroJob))"

text \<open>Body of the loop over the JobCreated logs (lines 117 to 140).\<close>

definition jobCreatedBody :: "storage \<Rightarrow> bucket \<Rightarrow> Log \<Rightarrow> (effect list \<times> bucket) option" where
  "jobCreatedBody st b jobCreatedLog =
     (case slice (Data jobCreatedLog) 0 32 of
        None \<Rightarrow> None
      | Some a \<Rightarrow>
          (case slice (Data jobCreatedLog) 32 64 of
             None \<Rightarrow> None
           | Some c \<Rightarrow>
               (let jobAddressBytes = BytesToAddress a;
                    jobConsumerBytes = BytesToAddress c;
                    job = getJob st b jobAddressBytes;
                    job = job\<lparr>JobAddress := jobAddressBytes\<rparr>;
                    job = job\<lparr>Consumer := jobConsumerBytes\<rparr>;
                    job = job\<lparr>JobState := jobPendingState\<rparr>
                in Some (putJob st b jobAddressBytes job))))"

text \<open>Body of the loop over the JobFunded logs (lines 156 to 177).\<close>

definition jobFundedBody :: "storage \<Rightarrow> bucket \<Rightarrow> Log \<Rightarrow> (effect list \<times> bucket) option" where
  "jobFundedBody st b jobFundedLog =
     (case slice (Data jobFundedLog) 0 32 of
        None \<Rightarrow> None
      | Some a \<Rightarrow>
          (let jobAddressBytes = BytesToAddress a;
               job = getJob st b jobAddressBytes;
               job = job\<lparr>JobAddress := jobAddressBytes\<rparr>;
               job = job\<lparr>JobState := jobFundedState\<rparr>
           in Some (putJob st b jobAddressBytes job)))"

text \<open>Body of the loop over the JobCompleted logs (lines 193 to 203).\<close>

definition jobCompletedBody :: "storage \<Rightarrow> bucket \<Rightarrow> Log \<Rightarrow> (effect list \<times> bucket) option" where
  "jobCompletedBody st b jobCompletedLog =
     (case slice (Data jobCompletedLog) 0 32 of
        None \<Rightarrow> None
      | Some a \<Rightarrow>
          (let jobAddressBytes = BytesToAddress a
           in (case DeleteErr st jobAddressBytes of
                 Some err \<Rightarrow> Some ([ErrorLogged ''error deleting job from db''], b)
               | None \<Rightarrow> Some ([], b(jobAddressBytes := None)))))"

text \<open>
  One of the three query blocks: the query is sent; an error is logged and the bucket
  is left alone; otherwise, when there is at least one log, the logs are run through
  the body in one transaction.
\<close>

definition scanKind :: "rpc \<Rightarrow> event_kind \<Rightarrow> string
    \<Rightarrow> (bucket \<Rightarrow> Log \<Rightarrow> (effect list \<times> bucket) option)
    \<Rightarrow> int \<Rightarrow> int \<Rightarrow> bucket \<Rightarrow> effect list \<times> bucket option" where
  "scanKind r kind msg body fromBlock currentBlock b =
     (case FilterLogs r fromBlock currentBlock kind of
        Inr logs \<Rightarrow>
          (if length logs > 0
           then (case rangeLogs body logs b of (es, res) \<Rightarrow> (LogsQueried kind fromBlock currentBlock # es, res))
           else ([LogsQueried kind fromBlock currentBlock], Some b))
      | Inl err \<Rightarrow> ([LogsQueried kind fromBlock currentBlock, ErrorLogged msg], Some b))"

text \<open>
  The final transaction of an iteration (lines 211 to 217):
  \<^verbatim>\<open>bucket.Put([]byte("lastBlock"), currentBlockBytes)\<close> on the chain bucket.
\<close>

definition putLastBlock :: "storage \<Rightarrow> DB \<Rightarrow> bytes \<Rightarrow> effect list \<times> DB" where
  "putLastBlock st db currentBlockBytes =
     (case PutErr st lastBlockKey currentBlockBytes of
        Some err \<Rightarrow> ([ErrorLogged ''error putting current block to db''], db)
      | None \<Rightarrow> ([], db\<lparr>chainBucket := (chainBucket db)(lastBlockKey \<mapsto> currentBlockBytes)\<rparr>))"

text \<open>
  The block from which an iteration scans: one past the stored checkpoint, or, with no
  checkpoint stored, one past \<open>currentBlock - 1\<close> (lines 93 to 104).
\<close>

definition fromBlockOf :: "DB \<Rightarrow> int \<Rightarrow> int" where
  "fromBlockOf db currentBlock =
     (let lastBlock = (case chainBucket db lastBlockKey of
                         None \<Rightarrow> currentBlock - 1
                       | Some lastBlockBytes \<Rightarrow> SetBytes lastBlockBytes)
      in lastBlock + 1)"

text \<open>One pass through the body of the \<^verbatim>\<open>for\<close> loop of \<^verbatim>\<open>processEvents\<close> (lines 80 to 218).\<close>

definition processEventsIteration :: "storage \<Rightarrow> rpc \<Rightarrow> DB \<Rightarrow> effect list \<times> outcome" where
  "processEventsIteration st r db =
     (case blockNumber r of
        Inl err \<Rightarrow> ([ErrorLogged ''error determining current block''], Done db)
      | Inr currentBlockBytes \<Rightarrow>
          (let currentBlock = SetBytes currentBlockBytes;
               fromBlock = fromBlockOf db currentBlock
           in if fromBlock \<le> currentBlock then
                (case scanKind r JobCreated ''error getting job created logs''
                        (jobCreatedBody st) fromBlock currentBlock (jobBucket db) of
                   (es1, None) \<Rightarrow> (es1, Panicked db)
                 | (es1, Some b1) \<Rightarrow>
                     (case scanKind r JobFunded ''error getting job funded logs''
                             (jobFundedBody st) fromBlock currentBlock b1 of
                        (es2, None) \<Rightarrow> (es1 @ es2, Panicked (db\<lparr>jobBucket := b1\<rparr>))
                      | (es2, Some b2) \<Rightarrow>
                          (case scanKind r JobCompleted ''error getting job completed logs''
                                  (jobCompletedBody st) fromBlock currentBlock b2 of
                             (es3, None) \<Rightarrow> (es1 @ es2 @ es3, Panicked (db\<lparr>jobBucket := b2\<rparr>))
                           | (es3, Some b3) \<Rightarrow>
                               (case putLastBlock st (db\<lparr>jobBucket := b3\<rparr>) currentBlockBytes of
                                  (es4, db') \<Rightarrow> (es1 @ es2 @ es3 @ es4, Done db')))))
              else ([], Done db)))"

text \<open>
  \<^verbatim>\<open>processEvents\<close> on the answers of the ledger to a finite run of iterations. When the
  contract ABI does not parse the routine logs that and returns before its first
  iteration; a panic ends the run.
\<close>

fun processEventsLoop :: "storage \<Rightarrow> rpc list \<Rightarrow> DB \<Rightarrow> effect list \<times> outcome" where
  "processEventsLoop st [] db = ([], Done db)"
| "processEventsLoop st (r # rs) db =
     (case processEventsIteration st r db of
        (es, Panicked db') \<Rightarrow> (es, Panicked db')
      | (es, Done db') \<Rightarrow>
          (case processEventsLoop st rs db' of (es', out) \<Rightarrow> (es @ es', out)))"

definition processEvents :: "bool \<Rightarrow> storage \<Rightarrow> rpc list \<Rightarrow> DB \<Rightarrow> effect list \<times> outcome" where
  "processEvents abiParses st rs db =
     (if \<not> abiParses then ([ErrorLogged ''error parsing agent ABI''], Done db)
      else processEventsLoop st rs db)"

section \<open>The completion submission worker (\<^verbatim>\<open>processJobCompletions\<close>)\<close>

text \<open>An item of the completion queue (\<^verbatim>\<open>jobInfo\<close>).\<close>

record jobInfo =
  jobAddressBytes :: bytes
  jobSignatureBytes :: bytes

text \<open>
  The collaborators of the worker, which \<^verbatim>\<open>tasks.go\<close> calls but does not define:
  \<^item> \<open>parseSignature\<close>: the helper that splits a signature; it returns
    \<open>(v, r, s, err)\<close> as the Go function does, with values for v, r and s also when
    \<open>err\<close> is set;
  \<^item> \<open>CompleteJob\<close>: the contract binding, given the job address and v, r, s; an
    error or the hash of the submitted transaction;
  \<^item> \<open>TransactionByHash\<close>: the answer to the \<open>k\<close>-th status poll for a transaction
    hash, an error or the pending flag.
\<close>

record ledger =
  parseSignature :: "bytes \<Rightarrow> 8 word \<times> bytes \<times> bytes \<times> error option"
  CompleteJob :: "bytes \<Rightarrow> 8 word \<Rightarrow> bytes \<Rightarrow> bytes \<Rightarrow> error + nat"
  TransactionByHash :: "nat \<Rightarrow> nat \<Rightarrow> error + bool"

text \<open>
  \<^verbatim>\<open>_, isPending, _ = p.ethClient.TransactionByHash(...)\<close>: the error is assigned to
  the blank identifier, and the client returns \<^verbatim>\<open>false\<close> for the flag next to every
  error.
\<close>

definition isPendingOf :: "error + bool \<Rightarrow> bool" where
  "isPendingOf resp = (case resp of Inl err \<Rightarrow> False | Inr isPending \<Rightarrow> isPending)"

text \<open>
  The confirmation wait (lines 54 to 59), started at poll \<open>k\<close>: it returns the index of
  the poll at which it breaks, and has no value when every poll says pending.
\<close>

partial_function (option) confirmationWait :: "ledger \<Rightarrow> nat \<Rightarrow> nat \<Rightarrow> nat option" where
  "confirmationWait c txn k =
     (if \<not> isPendingOf (TransactionByHash c txn k) then Some k
      else confirmationWait c txn (Suc k))"

declare confirmationWait.simps [code]

text \<open>The effects of a wait that breaks at poll \<open>k\<close>: a sleep after every poll but the last.\<close>

definition pollEffects :: "ledger \<Rightarrow> nat \<Rightarrow> nat \<Rightarrow> effect list" where
  "pollEffects c txn k =
     concat (map (\<lambda>i. [StatusPolled txn (TransactionByHash c txn i), Slept]) [0..<k])
     @ [StatusPolled txn (TransactionByHash c txn k)]"

text \<open>
  The body of the loop over the queue (lines 34 to 60), for one dequeued item. A parse
  error is logged and the body goes on; the transaction options carry the gas limit
  1000000.
\<close>

definition completeJobInfo :: "ledger \<Rightarrow> jobInfo \<Rightarrow> effect list option" where
  "completeJobInfo c ji =
     (case parseSignature c (jobSignatureBytes ji) of
        (v, r, s, err) \<Rightarrow>
          (let es0 = (case err of
                        Some e \<Rightarrow> [ErrorLogged ''error parsing job signature'']
                      | None \<Rightarrow> []);
               jobAddress = BytesToAddress (jobAddressBytes ji);
               call = CompleteJobCalled 1000000 jobAddress v r s
           in (case CompleteJob c jobAddress v r s of
                 Inl e \<Rightarrow>
                   Some (es0 @ [call, ErrorLogged ''error submitting transaction to complete job''])
               | Inr txn \<Rightarrow>
                   (case confirmationWait c txn 0 of
                      None \<Rightarrow> None
                    | Some k \<Rightarrow> Some (es0 @ [call] @ pollEffects c txn k)))))"

text \<open>
  \<^verbatim>\<open>for jobInfo := range p.jobCompletionQueue\<close> on the items the queue delivers, in
  order. The result is the effects of the run, or \<open>None\<close> when a confirmation wait never
  ends.
\<close>

fun processJobCompletions :: "ledger \<Rightarrow> jobInfo list \<Rightarrow> effect list option" where
  "processJobCompletions c [] = Some []"
| "processJobCompletions c (ji # queue) =
     (case completeJobInfo c ji of
        None \<Rightarrow> None
      | Some es \<Rightarrow>
          (case processJobCompletions c queue of
             None \<Rightarrow> None
           | Some es' \<Rightarrow> Some (es @ es')))"

section \<open>Notions used to state the properties\<close>

text \<open>The stored checkpoint as a block height, when there is one.\<close>

definition checkpoint :: "DB \<Rightarrow> int option" where
  "checkpoint db = map_option SetBytes (chainBucket db lastBlockKey)"

text \<open>
  The order in which checkpoints may follow each other: an absent checkpoint may be
  followed by anything, a stored one only by a stored one that is not smaller.
\<close>

fun checkpointLe :: "int option \<Rightarrow> int option \<Rightarrow> bool" where
  "checkpointLe None c = True"
| "checkpointLe (Some a) None = False"
| "checkpointLe (Some a) (Some b) = (a \<le> b)"

text \<open>The log queries among the effects of a run.\<close>

fun isQuery :: "effect \<Rightarrow> bool" where
  "isQuery (LogsQueried kind f t) = True"
| "isQuery e = False"

text \<open>
  The payload an event of each kind needs for its slice expressions: two 32-byte words
  for JobCreated, one for the others. An answer is decodable when it is an error or
  each of its logs has that much data, so that no body panics on it.
\<close>

fun minData :: "event_kind \<Rightarrow> nat" where
  "minData JobCreated = 64"
| "minData JobFunded = 32"
| "minData JobCompleted = 32"

definition answerDecodable :: "event_kind \<Rightarrow> error + Log list \<Rightarrow> bool" where
  "answerDecodable kind ans =
     (case ans of Inl err \<Rightarrow> True | Inr logs \<Rightarrow> list_all (\<lambda>l. minData kind \<le> length (Data l)) logs)"

definition answersDecodable :: "rpc \<Rightarrow> int \<Rightarrow> int \<Rightarrow> bool" where
  "answersDecodable r f t =
     (answerDecodable JobCreated (FilterLogs r f t JobCreated)
      \<and> answerDecodable JobFunded (FilterLogs r f t JobFunded)
      \<and> answerDecodable JobCompleted (FilterLogs r f t JobCompleted))"

text \<open>The same ledger answers, with every failed log query answered by no logs instead.\<close>

definition failuresAsEmpty :: "rpc \<Rightarrow> rpc" where
  "failuresAsEmpty r =
     r\<lparr>FilterLogs := (\<lambda>f t kind. case FilterLogs r f t kind of Inl err \<Rightarrow> Inr [] | Inr logs \<Rightarrow> Inr logs)\<rparr>"

text \<open>
  The job bucket as persisted after \<^verbatim>\<open>boltDB.Update\<close> ran a loop body over some logs:
  what the loop leaves, or the bucket as it was when a panic rolled the transaction
  back.
\<close>

definition updateLogs :: "(bucket \<Rightarrow> Log \<Rightarrow> (effect list \<times> bucket) option) \<Rightarrow> Log list \<Rightarrow> bucket
    \<Rightarrow> bucket" where
  "updateLogs body logs b = (case snd (rangeLogs body logs b) of None \<Rightarrow> b | Some b' \<Rightarrow> b')"

text \<open>The record a reader decodes from the bytes stored under a key, when there are any.\<close>

definition storedJob :: "storage \<Rightarrow> bucket \<Rightarrow> bytes \<Rightarrow> Job option" where
  "storedJob st b k = map_option (\<lambda>jobBytes. snd (json_Unmarshal st jobBytes zeroJob)) (b k)"

text \<open>
  The records the Created and the Funded body hand to \<^verbatim>\<open>json.Marshal\<close>, for the event
  words \<open>a\<close> (job address) and \<open>c\<close> (consumer): what is read from the bucket, with
  the fields the event sets.
\<close>

definition createdRecord :: "storage \<Rightarrow> bucket \<Rightarrow> bytes \<Rightarrow> bytes \<Rightarrow> Job" where
  "createdRecord st b a c =
     (getJob st b (BytesToAddress a))
       \<lparr>JobAddress := BytesToAddress a, Consumer := BytesToAddress c, JobState := jobPendingState\<rparr>"

definition fundedRecord :: "storage \<Rightarrow> bucket \<Rightarrow> bytes \<Rightarrow> Job" where
  "fundedRecord st b a =
     (getJob st b (BytesToAddress a))\<lparr>JobAddress := BytesToAddress a, JobState := jobFundedState\<rparr>"

text \<open>The state of the record a reader decodes from the bytes stored under a key.\<close>

definition storedState :: "storage \<Rightarrow> bucket \<Rightarrow> bytes \<Rightarrow> job_state option" where
  "storedState st b k = map_option JobState (storedJob st b k)"

text \<open>
  The serialization round-trips: decoding what \<^verbatim>\<open>json.Marshal\<close> produced, into a
  fresh record, gives the record back.
\<close>

definition codecRoundTrips :: "storage \<Rightarrow> bool" where
  "codecRoundTrips st =
     (\<forall>j jobBytes. json_Marshal st j = Inr jobBytes \<longrightarrow> json_Unmarshal st jobBytes zeroJob = (None, j))"

text \<open>
  The job address a log carries in its first word, when the log has one; and a ledger
  none of whose JobCreated answers carries a log for the job address \<open>k\<close>.
\<close>

definition logAddress :: "Log \<Rightarrow> bytes option" where
  "logAddress l = map_option BytesToAddress (slice (Data l) 0 32)"

definition noCreatedFor :: "bytes \<Rightarrow> rpc \<Rightarrow> bool" where
  "noCreatedFor k r =
     (\<forall>f t. case FilterLogs r f t JobCreated of
               Inl err \<Rightarrow> True
             | Inr logs \<Rightarrow> list_all (\<lambda>l. logAddress l \<noteq> Some k) logs)"

text \<open>The record under a key is stored as Funded, or there is no record under the key.\<close>

definition fundedOrAbsent :: "storage \<Rightarrow> bucket \<Rightarrow> bytes \<Rightarrow> bool" where
  "fundedOrAbsent st b k =
     (storedState st b k = Some jobFundedState \<or> storedState st b k = None)"

section \<open>Reference collaborators for closed examples\<close>

text \<open>
  A small serialization of job records: state byte, completed byte, the lengths of the
  address and of the consumer, then address, consumer and signature. It rejects
  records whose address or consumer does not fit a length byte, and bytes that are too
  short or carry an unknown state byte.
\<close>

definition stateByte :: "job_state \<Rightarrow> 8 word" where
  "stateByte s = (case s of jobZeroState \<Rightarrow> 0 | jobPendingState \<Rightarrow> 1 | jobFundedState \<Rightarrow> 2)"

definition byteState :: "8 word \<Rightarrow> job_state option" where
  "byteState w = (if w = 0 then Some jobZeroState else if w = 1 then Some jobPendingState
                  else if w = 2 then Some jobFundedState else None)"

definition refMarshal :: "Job \<Rightarrow> error + bytes" where
  "refMarshal j =
     (if length (JobAddress j) < 256 \<and> length (Consumer j) < 256
      then Inr (stateByte (JobState j) # (if Completed j then 1 else 0)
                # of_nat (length (JobAddress j)) # of_nat (length (Consumer j))
                # JobAddress j @ Consumer j @ JobSignature j)
      else Inl (Error ''field too long''))"

definition refUnmarshal :: "bytes \<Rightarrow> Job \<Rightarrow> error option \<times> Job" where
  "refUnmarshal bs job =
     (case bs of
        s # c # la # lc # rest \<Rightarrow>
          (case byteState s of
             Some stt \<Rightarrow>
               (if unat la + unat lc \<le> length rest
                then (None, \<lparr>JobAddress = take (unat la) rest,
                             Consumer = take (unat lc) (drop (unat la) rest),
                             JobSignature = drop (unat la + unat lc) rest,
                             JobState = stt, Completed = (c \<noteq> 0)\<rparr>)
                else (Some (Error ''unexpected end of input''), job))
           | None \<Rightarrow> (Some (Error ''unknown state''), job))
      | _ \<Rightarrow> (Some (Error ''unexpected end of input''), job))"

definition refStorage :: storage where
  "refStorage = \<lparr>json_Marshal = refMarshal, json_Unmarshal = refUnmarshal,
                 PutErr = (\<lambda>k v. None), DeleteErr = (\<lambda>k. None)\<rparr>"

text \<open>The addresses \<^verbatim>\<open>0xAA\<close> and \<^verbatim>\<open>0xBB\<close> as 20 bytes, and as 32-byte event words.\<close>

definition addrAA :: bytes where
  "addrAA = [0,0,0,0,0,0,0,0,0,0,0,0,0,0,0,0,0,0,0,0xAA]"

definition addrBB :: bytes where
  "addrBB = [0,0,0,0,0,0,0,0,0,0,0,0,0,0,0,0,0,0,0,0xBB]"

definition wordAA :: bytes where
  "wordAA = [0,0,0,0,0,0,0,0,0,0,0,0] @ addrAA"

definition wordBB :: bytes where
  "wordBB = [0,0,0,0,0,0,0,0,0,0,0,0] @ addrBB"

text \<open>A database with nothing stored, and a ledger at height 100 with no matching logs.\<close>

definition emptyDB :: DB where
  "emptyDB = \<lparr>chainBucket = Map.empty, jobBucket = Map.empty\<rparr>"

definition rpcQuiet :: "bytes \<Rightarrow> rpc" where
  "rpcQuiet currentBlockBytes = \<lparr>blockNumber = Inr currentBlockBytes, FilterLogs = (\<lambda>f t kind. Inr [])\<rparr>"

text \<open>The records \<^verbatim>\<open>{0xAA, consumer: 0xBB}\<close> in both states, and a bucket holding one of them.\<close>

definition jobAA :: "job_state \<Rightarrow> Job" where
  "jobAA s = \<lparr>JobAddress = addrAA, Consumer = addrBB, JobSignature = [], JobState = s,
              Completed = False\<rparr>"

definition bytesAA :: "job_state \<Rightarrow> bytes" where
  "bytesAA s = stateByte s # 0 # 20 # 20 # addrAA @ addrBB"

definition bucketAA :: "bytes \<Rightarrow> bucket" where
  "bucketAA jobBytes = Map.empty(addrAA \<mapsto> jobBytes)"

text \<open>
  A reference ledger for the worker. A signature parses when it has 65 bytes (r, s,
  v); the binding accepts every call and returns the length of the job address it was
  given plus the last byte of \<open>r\<close> as the transaction hash; the status of transaction
  \<open>20\<close> cannot be queried, every other transaction is reported mined at the first poll.
\<close>

definition refParseSignature :: "bytes \<Rightarrow> 8 word \<times> bytes \<times> bytes \<times> error option" where
  "refParseSignature sig =
     (if length sig = 65 then (sig ! 64, take 32 sig, take 32 (drop 32 sig), None)
      else (0, replicate 32 0, replicate 32 0, Some (Error ''job signature incorrect length'')))"

definition refLedger :: ledger where
  "refLedger = \<lparr>parseSignature = refParseSignature,
                CompleteJob = (\<lambda>a v r s. Inr (length a + unat (last r))),
                TransactionByHash = (\<lambda>txn k. if txn = 20 then Inl (Error ''connection refused'')
                                              else Inr False)\<rparr>"

text \<open>
  A 65-byte signature whose \<open>r\<close> ends in the given byte, and three queue items: jobs
  \<^verbatim>\<open>0xAA\<close> and \<^verbatim>\<open>0xBB\<close> with such signatures, and job \<^verbatim>\<open>0xAA\<close> with an empty
  signature, which does not parse.
\<close>

definition sigR :: "8 word \<Rightarrow> bytes" where
  "sigR w = replicate 31 0 @ [w]"

definition sigS :: bytes where
  "sigS = replicate 32 0"

definition sig65 :: "8 word \<Rightarrow> bytes" where
  "sig65 w = sigR w @ sigS @ [27]"

definition queuedAA :: jobInfo where
  "queuedAA = \<lparr>jobAddressBytes = addrAA, jobSignatureBytes = sig65 0\<rparr>"

definition queuedBB :: jobInfo where
  "queuedBB = \<lparr>jobAddressBytes = addrBB, jobSignatureBytes = sig65 1\<rparr>"

definition queuedUnsigned :: jobInfo where
  "queuedUnsigned = \<lparr>jobAddressBytes = addrAA, jobSignatureBytes = []\<rparr>"

text \<open>A database whose checkpoint is 50, and nothing else.\<close>

definition db50 :: DB where
  "db50 = emptyDB\<lparr>chainBucket := Map.empty(lastBlockKey \<mapsto> [50])\<rparr>"

text \<open>
  A ledger at height 55 whose JobFunded query fails, whose JobCreated query returns one
  log (job \<^verbatim>\<open>0xAA\<close>, consumer \<^verbatim>\<open>0xBB\<close>) and whose JobCompleted query returns none.
\<close>

definition rpcFundedDown :: rpc where
  "rpcFundedDown =
     \<lparr>blockNumber = Inr [55],
      FilterLogs = (\<lambda>f t kind. case kind of
                      JobCreated \<Rightarrow> Inr [Log (wordAA @ wordBB)]
                    | JobFunded \<Rightarrow> Inl (Error ''timeout'')
                    | JobCompleted \<Rightarrow> Inr [])\<rparr>"

text \<open>The reference store with an encoder that fails on every record.\<close>

definition brokenStorage :: storage where
  "brokenStorage = refStorage\<lparr>json_Marshal := (\<lambda>j. Inl (Error ''unsupported value''))\<rparr>"

text \<open>
  A ledger all of whose queries succeed, the JobCreated query with one log that has no
  data; and the reference store with a \<^verbatim>\<open>bucket.Put\<close> that rejects every write.
\<close>

definition rpcShortLog :: "bytes \<Rightarrow> rpc" where
  "rpcShortLog currentBlockBytes =
     \<lparr>blockNumber = Inr currentBlockBytes,
      FilterLogs = (\<lambda>f t kind. case kind of
                      JobCreated \<Rightarrow> Inr [Log []]
                    | JobFunded \<Rightarrow> Inr []
                    | JobCompleted \<Rightarrow> Inr [])\<rparr>"

definition rejectingStorage :: storage where
  "rejectingStorage = refStorage\<lparr>PutErr := (\<lambda>k v. Some (Error ''tx not writable''))\<rparr>"

text \<open>
  A database that holds the Funded record of job \<^verbatim>\<open>0xAA\<close> and no checkpoint, and a
  ledger at height 55 that answers with a JobCreated log for job \<^verbatim>\<open>0xBB\<close> (consumer
  \<^verbatim>\<open>0xAA\<close>), a JobFunded log for job \<^verbatim>\<open>0xAA\<close> and a JobCompleted log for job \<^verbatim>\<open>0xBB\<close>.
\<close>

definition dbFundedAA :: DB where
  "dbFundedAA = \<lparr>chainBucket = Map.empty, jobBucket = bucketAA (bytesAA jobFundedState)\<rparr>"

definition rpcOtherJob :: rpc where
  "rpcOtherJob =
     \<lparr>blockNumber = Inr [55],
      FilterLogs = (\<lambda>f t kind. case kind of
                      JobCreated \<Rightarrow> Inr [Log (wordBB @ wordAA)]
                    | JobFunded \<Rightarrow> Inr [Log wordAA]
                    | JobCompleted \<Rightarrow> Inr [Log wordBB])\<rparr>"

section \<open>Basic facts about the event loop\<close>

lemma SetBytes_simps: "SetBytes [] = 0" "SetBytes [w] = uint w"
  by (simp_all add: SetBytes_def)

lemma checkpointLe_refl: "checkpointLe c c"
  by (cases c) simp_all

lemma checkpointLe_trans: "checkpointLe a b \<Longrightarrow> checkpointLe b c \<Longrightarrow> checkpointLe a c"
  by (cases a; cases b; cases c) simp_all

lemma chainBucket_putLastBlock:
  "chainBucket (snd (putLastBlock st db cb)) =
     (case PutErr st lastBlockKey cb of
        Some e \<Rightarrow> chainBucket db
      | None \<Rightarrow> (chainBucket db)(lastBlockKey \<mapsto> cb))"
  by (simp add: putLastBlock_def split: option.splits)

text \<open>
  The database an iteration leaves depends on the buckets the three query blocks return,
  not on what they log.
\<close>

lemma snd_iteration:
  "snd (processEventsIteration st r db) =
     (case blockNumber r of
        Inl err \<Rightarrow> Done db
      | Inr cb \<Rightarrow>
          (let C = SetBytes cb; f = fromBlockOf db C
           in if f \<le> C then
                (case snd (scanKind r JobCreated ''error getting job created logs''
                             (jobCreatedBody st) f C (jobBucket db)) of
                   None \<Rightarrow> Panicked db
                 | Some b1 \<Rightarrow>
                     (case snd (scanKind r JobFunded ''error getting job funded logs''
                                  (jobFundedBody st) f C b1) of
                        None \<Rightarrow> Panicked (db\<lparr>jobBucket := b1\<rparr>)
                      | Some b2 \<Rightarrow>
                          (case snd (scanKind r JobCompleted ''error getting job completed logs''
                                       (jobCompletedBody st) f C b2) of
                             None \<Rightarrow> Panicked (db\<lparr>jobBucket := b2\<rparr>)
                           | Some b3 \<Rightarrow>
                               Done (snd (putLastBlock st (db\<lparr>jobBucket := b3\<rparr>) cb)))))
              else Done db))"
  by (simp add: processEventsIteration_def Let_def split: sum.splits prod.splits option.splits)

section \<open>The checkpoint never decreases\<close>

lemma checkpoint_iteration:
  "checkpointLe (checkpoint db) (checkpoint (db_of (snd (processEventsIteration st r db))))"
  by (auto simp: snd_iteration Let_def checkpoint_def chainBucket_putLastBlock
        checkpointLe_refl fromBlockOf_def split: sum.splits option.splits)

lemma checkpoint_loop:
  "checkpointLe (checkpoint db) (checkpoint (db_of (snd (processEventsLoop st rs db))))"
proof (induction rs arbitrary: db)
  case Nil
  show ?case by (simp add: checkpointLe_refl)
next
  case (Cons r rs)
  obtain es out where it: "processEventsIteration st r db = (es, out)"
    by (cases "processEventsIteration st r db")
  have step: "checkpointLe (checkpoint db) (checkpoint (db_of out))"
    using checkpoint_iteration [of db st r] it by simp
  show ?case
  proof (cases out)
    case (Panicked db')
    with it step show ?thesis by simp
  next
    case (Done db')
    obtain es' out' where lp: "processEventsLoop st rs db' = (es', out')"
      by (cases "processEventsLoop st rs db'")
    have "checkpointLe (checkpoint db') (checkpoint (db_of out'))"
      using Cons.IH [of db'] lp by simp
    with step Done have "checkpointLe (checkpoint db) (checkpoint (db_of out'))"
      by (auto intro: checkpointLe_trans)
    with it Done lp show ?thesis by simp
  qed
qed

text \<open>
  C3: for every sequence of iterations of the event synchronization loop, with any
  current-height readings and any pattern of per-kind query successes and failures,
  the persisted checkpoint never decreases. Whatever the database, the store and the
  ledger's answers, the checkpoint after one iteration is not below the checkpoint
  before it, and the same holds from the start of \<^verbatim>\<open>processEvents\<close> to the end of
  any run of iterations; a checkpoint once stored is never absent afterwards.
\<close>

theorem checkpoint_never_decreases:
  "checkpointLe (checkpoint db) (checkpoint (db_of (snd (processEventsIteration st r db))))
   \<and> checkpointLe (checkpoint db) (checkpoint (db_of (snd (processEvents abiParses st rs db))))"
  by (simp add: processEvents_def checkpoint_iteration checkpoint_loop checkpointLe_refl)

text \<open>
  An instance: with checkpoint 50 stored and the ledger at height 55, the iteration
  stores 55.
\<close>

theorem checkpoint_never_decreases_witness:
  "checkpoint db50 = Some 50
   \<and> checkpoint (db_of (snd (processEventsIteration refStorage (rpcQuiet [55])
        db50))) = Some 55
   \<and> checkpointLe (checkpoint db50)
        (checkpoint (db_of (snd (processEventsIteration refStorage (rpcQuiet [55])
           db50))))"
  using checkpoint_never_decreases [of db50
      refStorage "rpcQuiet [55]" True "[]"]
  by (simp add: checkpoint_def processEventsIteration_def rpcQuiet_def emptyDB_def db50_def
        fromBlockOf_def SetBytes_simps scanKind_def putLastBlock_def refStorage_def)

section \<open>An iteration that scans\<close>

lemma putJob_noquery: "filter isQuery (fst (putJob st b a j)) = []"
  by (simp add: putJob_def split: sum.splits option.splits)

lemma jobCreatedBody_ok:
  assumes "64 \<le> length (Data l)"
  shows "\<exists>es b'. jobCreatedBody st b l = Some (es, b') \<and> filter isQuery es = []"
proof -
  from assms have "slice (Data l) 0 32 \<noteq> None" and "slice (Data l) 32 64 \<noteq> None"
    by (simp_all add: slice_def)
  then obtain a c where "slice (Data l) 0 32 = Some a" and "slice (Data l) 32 64 = Some c"
    by auto
  then show ?thesis
    by (simp add: jobCreatedBody_def Let_def putJob_noquery prod_eq_iff)
qed

lemma jobFundedBody_ok:
  assumes "32 \<le> length (Data l)"
  shows "\<exists>es b'. jobFundedBody st b l = Some (es, b') \<and> filter isQuery es = []"
proof -
  from assms obtain a where "slice (Data l) 0 32 = Some a"
    by (simp add: slice_def)
  then show ?thesis
    by (simp add: jobFundedBody_def Let_def putJob_noquery prod_eq_iff)
qed

lemma jobCompletedBody_ok:
  assumes "32 \<le> length (Data l)"
  shows "\<exists>es b'. jobCompletedBody st b l = Some (es, b') \<and> filter isQuery es = []"
proof -
  from assms obtain a where "slice (Data l) 0 32 = Some a"
    by (simp add: slice_def)
  then show ?thesis
    by (simp add: jobCompletedBody_def Let_def split: option.splits)
qed

lemma rangeLogs_ok:
  assumes "\<And>l b. l \<in> set logs \<Longrightarrow> \<exists>es b'. body b l = Some (es, b') \<and> filter isQuery es = []"
  shows "\<exists>es b'. rangeLogs body logs b = (es, Some b') \<and> filter isQuery es = []"
  using assms
proof (induction logs arbitrary: b)
  case Nil
  show ?case by simp
next
  case (Cons l ls)
  from Cons.prems [of l b] obtain es b1 where hd: "body b l = Some (es, b1)" "filter isQuery es = []"
    by auto
  from Cons.IH [of b1] Cons.prems obtain es' b2
    where tl: "rangeLogs body ls b1 = (es', Some b2)" "filter isQuery es' = []"
    by auto
  from hd tl show ?case by simp
qed

lemma scanKind_ok:
  assumes "\<And>logs l b. FilterLogs r f t kind = Inr logs \<Longrightarrow> l \<in> set logs
             \<Longrightarrow> \<exists>es b'. body b l = Some (es, b') \<and> filter isQuery es = []"
  shows "\<exists>es b'. scanKind r kind msg body f t b = (es, Some b')
           \<and> filter isQuery es = [LogsQueried kind f t]"
proof (cases "FilterLogs r f t kind")
  case (Inl e)
  then show ?thesis by (simp add: scanKind_def)
next
  case (Inr logs)
  from rangeLogs_ok [of logs body b] assms [OF Inr] obtain es b'
    where "rangeLogs body logs b = (es, Some b')" "filter isQuery es = []"
    by blast
  with Inr show ?thesis by (simp add: scanKind_def)
qed

lemma answerDecodable_Inr:
  "answerDecodable kind (Inr logs) \<Longrightarrow> l \<in> set logs \<Longrightarrow> minData kind \<le> length (Data l)"
  by (simp add: answerDecodable_def list_all_iff)

lemma putLastBlock_noquery: "filter isQuery (fst (putLastBlock st db cb)) = []"
  by (simp add: putLastBlock_def split: option.splits)

lemma iteration_scans:
  assumes bn: "blockNumber r = Inr cb"
    and le: "fromBlockOf db (SetBytes cb) \<le> SetBytes cb"
    and dec: "answersDecodable r (fromBlockOf db (SetBytes cb)) (SetBytes cb)"
  shows "\<exists>es b3. processEventsIteration st r db
            = (es, Done (snd (putLastBlock st (db\<lparr>jobBucket := b3\<rparr>) cb)))
          \<and> filter isQuery es =
              [LogsQueried JobCreated (fromBlockOf db (SetBytes cb)) (SetBytes cb),
               LogsQueried JobFunded (fromBlockOf db (SetBytes cb)) (SetBytes cb),
               LogsQueried JobCompleted (fromBlockOf db (SetBytes cb)) (SetBytes cb)]"
proof -
  let ?f = "fromBlockOf db (SetBytes cb)" and ?C = "SetBytes cb"
  from dec have d1: "answerDecodable JobCreated (FilterLogs r ?f ?C JobCreated)"
    and d2: "answerDecodable JobFunded (FilterLogs r ?f ?C JobFunded)"
    and d3: "answerDecodable JobCompleted (FilterLogs r ?f ?C JobCompleted)"
    by (simp_all add: answersDecodable_def)
  obtain es1 b1 where s1: "scanKind r JobCreated ''error getting job created logs''
        (jobCreatedBody st) ?f ?C (jobBucket db) = (es1, Some b1)"
      "filter isQuery es1 = [LogsQueried JobCreated ?f ?C]"
    using scanKind_ok [of r ?f ?C JobCreated "jobCreatedBody st"] d1
      answerDecodable_Inr [of JobCreated] jobCreatedBody_ok [of _ st]
    by (metis minData.simps(1))
  obtain es2 b2 where s2: "scanKind r JobFunded ''error getting job funded logs''
        (jobFundedBody st) ?f ?C b1 = (es2, Some b2)"
      "filter isQuery es2 = [LogsQueried JobFunded ?f ?C]"
    using scanKind_ok [of r ?f ?C JobFunded "jobFundedBody st"] d2
      answerDecodable_Inr [of JobFunded] jobFundedBody_ok [of _ st]
    by (metis minData.simps(2))
  obtain es3 b3 where s3: "scanKind r JobCompleted ''error getting job completed logs''
        (jobCompletedBody st) ?f ?C b2 = (es3, Some b3)"
      "filter isQuery es3 = [LogsQueried JobCompleted ?f ?C]"
    using scanKind_ok [of r ?f ?C JobCompleted "jobCompletedBody st"] d3
      answerDecodable_Inr [of JobCompleted] jobCompletedBody_ok [of _ st]
    by (metis minData.simps(3))
  obtain es4 db' where p: "putLastBlock st (db\<lparr>jobBucket := b3\<rparr>) cb = (es4, db')"
    by (cases "putLastBlock st (db\<lparr>jobBucket := b3\<rparr>) cb")
  with putLastBlock_noquery [of st "db\<lparr>jobBucket := b3\<rparr>" cb] have q4: "filter isQuery es4 = []"
    by simp
  have "processEventsIteration st r db
          = (es1 @ es2 @ es3 @ es4, Done (snd (putLastBlock st (db\<lparr>jobBucket := b3\<rparr>) cb)))"
    using bn le s1(1) s2(1) s3(1) p by (simp add: processEventsIteration_def Let_def)
  moreover have "filter isQuery (es1 @ es2 @ es3 @ es4) =
              [LogsQueried JobCreated ?f ?C, LogsQueried JobFunded ?f ?C,
               LogsQueried JobCompleted ?f ?C]"
    using s1(2) s2(2) s3(2) q4 by simp
  ultimately show ?thesis by blast
qed

lemma snd_scanKind_failuresAsEmpty:
  "snd (scanKind (failuresAsEmpty r) kind msg body f t b) = snd (scanKind r kind msg body f t b)"
  by (simp add: scanKind_def failuresAsEmpty_def split: sum.splits prod.splits)

lemma snd_iteration_failuresAsEmpty:
  "snd (processEventsIteration st (failuresAsEmpty r) db) = snd (processEventsIteration st r db)"
proof -
  have "blockNumber (failuresAsEmpty r) = blockNumber r"
    by (simp add: failuresAsEmpty_def)
  then show ?thesis
    by (simp add: snd_iteration snd_scanKind_failuresAsEmpty Let_def
          cong: sum.case_cong option.case_cong if_cong)
qed

section \<open>Facts about the closed examples\<close>

lemma slice_word_simps:
  "slice (wordAA @ wordBB) 0 32 = Some wordAA" "slice (wordAA @ wordBB) 32 64 = Some wordBB"
  "slice wordAA 0 32 = Some wordAA"
  by (simp_all add: slice_def wordAA_def wordBB_def addrAA_def addrBB_def)

lemma BytesToAddress_word_simps:
  "BytesToAddress wordAA = addrAA" "BytesToAddress wordBB = addrBB"
  by (simp_all add: BytesToAddress_def wordAA_def wordBB_def addrAA_def addrBB_def)

lemma length_examples [simp]:
  "length addrAA = 20" "length addrBB = 20" "length wordAA = 32" "length wordBB = 32"
  by (simp_all add: wordAA_def wordBB_def addrAA_def addrBB_def)

lemma refMarshal_jobAA: "refMarshal (jobAA s) = Inr (bytesAA s)"
  by (simp add: refMarshal_def jobAA_def bytesAA_def)

lemma db50_simps:
  "chainBucket db50 lastBlockKey = Some [50]" "jobBucket db50 = Map.empty"
  by (simp_all add: db50_def emptyDB_def)

lemma scanKind_rpcShortLog:
  "scanKind (rpcShortLog cb) JobCreated msg (jobCreatedBody st) f t b
     = ([LogsQueried JobCreated f t], None)"
  by (simp add: scanKind_def rpcShortLog_def jobCreatedBody_def slice_def)

lemma blockNumber_examples:
  "blockNumber (rpcShortLog cb) = Inr cb" "blockNumber (rpcQuiet cb) = Inr cb"
  by (simp_all add: rpcShortLog_def rpcQuiet_def)

lemma PutErr_rejectingStorage: "PutErr rejectingStorage k v = Some (Error ''tx not writable'')"
  by (simp add: rejectingStorage_def)

lemma PutErr_refStorage: "PutErr refStorage k v = None"
  by (simp add: refStorage_def)

lemma scanKind_rpcQuiet:
  "scanKind (rpcQuiet cb) kind msg body f t b = ([LogsQueried kind f t], Some b)"
  by (simp add: scanKind_def rpcQuiet_def)

lemma emptyDB_simps:
  "chainBucket emptyDB lastBlockKey = None" "jobBucket emptyDB = Map.empty"
  by (simp_all add: emptyDB_def)

section \<open>The checkpoint write does not depend on the log queries\<close>

text \<open>
  C1, as the spec states it: in every iteration of the event synchronization loop in
  which \<open>from \<le> C\<close> (checkpoint + 1 \<le> current height), the checkpoint is persisted
  as \<open>C\<close> at the end of the iteration, whether the three per-kind log queries succeed
  or fail. Two iterations with checkpoint 50 and height 55, so \<open>from = 51 \<le> 55\<close>, in
  which all three queries succeed and the checkpoint stays 50: in the first the
  JobCreated query returns a log without data, the slice expression of the Created
  body panics, and the routine ends before the checkpoint write; in the second
  \<^verbatim>\<open>bucket.Put\<close> rejects the checkpoint, which is logged and nothing more.
\<close>

theorem checkpoint_not_persisted_counterexample:
  "fromBlockOf db50 (SetBytes [55]) = 51
   \<and> SetBytes [55] = 55
   \<and> FilterLogs (rpcShortLog [55]) 51 55 JobCreated = Inr [Log []]
   \<and> FilterLogs (rpcShortLog [55]) 51 55 JobFunded = Inr []
   \<and> FilterLogs (rpcShortLog [55]) 51 55 JobCompleted = Inr []
   \<and> processEventsIteration refStorage (rpcShortLog [55]) db50
       = ([LogsQueried JobCreated 51 55], Panicked db50)
   \<and> checkpoint db50 = Some 50
   \<and> processEventsIteration rejectingStorage (rpcQuiet [55]) db50
       = ([LogsQueried JobCreated 51 55, LogsQueried JobFunded 51 55,
           LogsQueried JobCompleted 51 55,
           ErrorLogged ''error putting current block to db''], Done db50)"
proof -
  have sb: "SetBytes [55] = 55"
    by (simp add: SetBytes_simps)
  have f: "fromBlockOf db50 55 = 51"
    by (simp add: fromBlockOf_def db50_simps SetBytes_simps)
  have q: "FilterLogs (rpcShortLog [55]) 51 55 JobCreated = Inr [Log []]"
    "FilterLogs (rpcShortLog [55]) 51 55 JobFunded = Inr []"
    "FilterLogs (rpcShortLog [55]) 51 55 JobCompleted = Inr []"
    by (simp_all add: rpcShortLog_def)
  have short: "processEventsIteration refStorage (rpcShortLog [55]) db50
       = ([LogsQueried JobCreated 51 55], Panicked db50)"
    by (simp add: processEventsIteration_def blockNumber_examples sb f scanKind_rpcShortLog)
  have cp: "checkpoint db50 = Some 50"
    by (simp add: checkpoint_def db50_simps SetBytes_simps)
  have "db50\<lparr>jobBucket := Map.empty\<rparr> = db50"
    by (simp add: db50_def emptyDB_def)
  then have rej: "processEventsIteration rejectingStorage (rpcQuiet [55]) db50
       = ([LogsQueried JobCreated 51 55, LogsQueried JobFunded 51 55,
           LogsQueried JobCompleted 51 55,
           ErrorLogged ''error putting current block to db''], Done db50)"
    by (simp add: processEventsIteration_def blockNumber_examples sb f scanKind_rpcQuiet
          db50_simps putLastBlock_def PutErr_rejectingStorage)
  from sb f q short cp rej show ?thesis by simp
qed

text \<open>
  C1, amended: in every iteration of the event synchronization loop in which
  \<open>from \<le> C\<close> (checkpoint + 1 \<le> current height), every log returned by a query
  carries the payload the slice expressions of its kind need (64 bytes for Created, 32
  for Funded and Completed) and the store accepts the put of the checkpoint, the
  checkpoint is persisted as \<open>C\<close> at the end of the iteration, whether the three
  per-kind log queries succeed or fail; a failed query of one kind does not abort the
  other two kinds and does not prevent the checkpoint write. For any answers of the
  three queries, errors included: the iteration runs to its end, all three queries are
  sent for the range from \<open>from\<close> to \<open>C\<close>, the bytes of \<open>C\<close> are stored under
  \<^verbatim>\<open>lastBlock\<close>, and the database left is the one left when every failed query had
  answered with no logs.
\<close>

theorem checkpoint_persisted_whatever_queries_answer:
  assumes "blockNumber r = Inr cb"
    and "fromBlockOf db (SetBytes cb) \<le> SetBytes cb"
    and "answersDecodable r (fromBlockOf db (SetBytes cb)) (SetBytes cb)"
    and "PutErr st lastBlockKey cb = None"
  shows "\<exists>es db'. processEventsIteration st r db = (es, Done db')
           \<and> chainBucket db' lastBlockKey = Some cb
           \<and> checkpoint db' = Some (SetBytes cb)
           \<and> filter isQuery es =
               [LogsQueried JobCreated (fromBlockOf db (SetBytes cb)) (SetBytes cb),
                LogsQueried JobFunded (fromBlockOf db (SetBytes cb)) (SetBytes cb),
                LogsQueried JobCompleted (fromBlockOf db (SetBytes cb)) (SetBytes cb)]
           \<and> snd (processEventsIteration st (failuresAsEmpty r) db) = Done db'"
proof -
  from iteration_scans [OF assms(1-3), of st] obtain es b3
    where it: "processEventsIteration st r db
                 = (es, Done (snd (putLastBlock st (db\<lparr>jobBucket := b3\<rparr>) cb)))"
      and qs: "filter isQuery es =
               [LogsQueried JobCreated (fromBlockOf db (SetBytes cb)) (SetBytes cb),
                LogsQueried JobFunded (fromBlockOf db (SetBytes cb)) (SetBytes cb),
                LogsQueried JobCompleted (fromBlockOf db (SetBytes cb)) (SetBytes cb)]"
    by blast
  let ?db' = "snd (putLastBlock st (db\<lparr>jobBucket := b3\<rparr>) cb)"
  have cp: "chainBucket ?db' lastBlockKey = Some cb"
    using assms(4) by (simp add: chainBucket_putLastBlock)
  then have "checkpoint ?db' = Some (SetBytes cb)"
    by (simp add: checkpoint_def)
  moreover have "snd (processEventsIteration st (failuresAsEmpty r) db) = Done ?db'"
    using it by (simp add: snd_iteration_failuresAsEmpty)
  ultimately show ?thesis using it qs cp by blast
qed

text \<open>
  An instance: checkpoint 50, height 55, the JobFunded query fails while the
  JobCreated query returns a log for job \<^verbatim>\<open>0xAA\<close>. The record is stored as Pending and
  the checkpoint becomes 55.
\<close>

theorem checkpoint_persisted_whatever_queries_answer_witness:
  "blockNumber rpcFundedDown = Inr [55]
   \<and> fromBlockOf db50 (SetBytes [55]) \<le> SetBytes [55]
   \<and> answersDecodable rpcFundedDown (fromBlockOf db50 (SetBytes [55])) (SetBytes [55])
   \<and> PutErr refStorage lastBlockKey [55] = None
   \<and> FilterLogs rpcFundedDown 51 55 JobFunded = Inl (Error ''timeout'')
   \<and> checkpoint (db_of (snd (processEventsIteration refStorage rpcFundedDown db50))) = Some 55
   \<and> jobBucket (db_of (snd (processEventsIteration refStorage rpcFundedDown db50))) addrAA
       = Some (bytesAA jobPendingState)"
proof -
  have h1: "blockNumber rpcFundedDown = Inr [55]"
    by (simp add: rpcFundedDown_def)
  have sb: "SetBytes [55] = 55"
    by (simp add: SetBytes_simps)
  have f: "fromBlockOf db50 55 = 51"
    by (simp add: fromBlockOf_def db50_def emptyDB_def SetBytes_simps)
  have h2: "fromBlockOf db50 (SetBytes [55]) \<le> SetBytes [55]"
    by (simp add: f sb)
  have h3: "answersDecodable rpcFundedDown (fromBlockOf db50 (SetBytes [55])) (SetBytes [55])"
    by (simp add: answersDecodable_def answerDecodable_def rpcFundedDown_def)
  have h4: "PutErr refStorage lastBlockKey [55] = None"
    by (simp add: refStorage_def)
  have h5: "FilterLogs rpcFundedDown 51 55 JobFunded = Inl (Error ''timeout'')"
    by (simp add: rpcFundedDown_def)
  have created: "jobCreatedBody refStorage Map.empty (Log (wordAA @ wordBB))
      = Some ([], Map.empty(addrAA \<mapsto> bytesAA jobPendingState))"
    using refMarshal_jobAA [of jobPendingState]
    by (simp add: jobCreatedBody_def slice_word_simps BytesToAddress_word_simps getJob_def
        putJob_def refStorage_def zeroJob_def jobAA_def)
  have jb: "jobBucket db50 = Map.empty"
    by (simp add: db50_def emptyDB_def)
  have s1: "scanKind rpcFundedDown JobCreated msg (jobCreatedBody refStorage) 51 55 Map.empty
      = ([LogsQueried JobCreated 51 55], Some (Map.empty(addrAA \<mapsto> bytesAA jobPendingState)))"
    for msg
    by (simp add: scanKind_def rpcFundedDown_def created)
  have s2: "scanKind rpcFundedDown JobFunded msg body 51 55 b
      = ([LogsQueried JobFunded 51 55, ErrorLogged msg], Some b)" for msg body b
    by (simp add: scanKind_def rpcFundedDown_def)
  have s3: "scanKind rpcFundedDown JobCompleted msg body 51 55 b
      = ([LogsQueried JobCompleted 51 55], Some b)" for msg body b
    by (simp add: scanKind_def rpcFundedDown_def)
  have sn: "jobBucket (db_of (snd (processEventsIteration refStorage rpcFundedDown db50))) addrAA
      = Some (bytesAA jobPendingState)"
    by (simp add: processEventsIteration_def h1 sb f jb s1 s2 s3 putLastBlock_def h4)
  from checkpoint_persisted_whatever_queries_answer [OF h1 h2 h3 h4]
  have "checkpoint (db_of (snd (processEventsIteration refStorage rpcFundedDown db50))) = Some 55"
    by (auto simp: sb)
  with h1 h2 h3 h4 h5 sn show ?thesis by simp
qed

section \<open>The first iteration\<close>

text \<open>
  C9, as the spec states it: with no checkpoint stored and the ledger at height 100,
  the first iteration sets the checkpoint to 100 without scanning any range. The code
  does scan: with the checkpoint absent \<open>lastBlock\<close> is 99, \<open>fromBlock\<close> is 100,
  the test \<open>fromBlock \<le> currentBlock\<close> holds, and the three log queries are sent for
  the range from block 100 to block 100. And the checkpoint is not always set: when the
  JobCreated query returns a log without data for block 100 the routine panics after
  that query, and when \<^verbatim>\<open>bucket.Put\<close> rejects the checkpoint it is only logged; in
  both runs the checkpoint stays absent.
\<close>

theorem first_iteration_without_scan_counterexample:
  "chainBucket emptyDB lastBlockKey = None
   \<and> blockNumber (rpcQuiet [0x64]) = Inr [0x64]
   \<and> SetBytes [0x64] = 100
   \<and> fst (processEventsIteration refStorage (rpcQuiet [0x64]) emptyDB)
       = [LogsQueried JobCreated 100 100, LogsQueried JobFunded 100 100,
          LogsQueried JobCompleted 100 100]
   \<and> processEventsIteration refStorage (rpcShortLog [0x64]) emptyDB
       = ([LogsQueried JobCreated 100 100], Panicked emptyDB)
   \<and> processEventsIteration rejectingStorage (rpcQuiet [0x64]) emptyDB
       = ([LogsQueried JobCreated 100 100, LogsQueried JobFunded 100 100,
           LogsQueried JobCompleted 100 100,
           ErrorLogged ''error putting current block to db''], Done emptyDB)"
proof -
  have sb: "SetBytes [0x64] = 100"
    by (simp add: SetBytes_simps)
  have f: "fromBlockOf emptyDB 100 = 100"
    by (simp add: fromBlockOf_def emptyDB_simps)
  have quiet: "fst (processEventsIteration refStorage (rpcQuiet [0x64]) emptyDB)
       = [LogsQueried JobCreated 100 100, LogsQueried JobFunded 100 100,
          LogsQueried JobCompleted 100 100]"
    by (simp add: processEventsIteration_def blockNumber_examples sb f scanKind_rpcQuiet
          putLastBlock_def PutErr_refStorage)
  have short: "processEventsIteration refStorage (rpcShortLog [0x64]) emptyDB
       = ([LogsQueried JobCreated 100 100], Panicked emptyDB)"
    by (simp add: processEventsIteration_def blockNumber_examples sb f scanKind_rpcShortLog)
  have "emptyDB\<lparr>jobBucket := Map.empty\<rparr> = emptyDB"
    by (simp add: emptyDB_def)
  then have rej: "processEventsIteration rejectingStorage (rpcQuiet [0x64]) emptyDB
       = ([LogsQueried JobCreated 100 100, LogsQueried JobFunded 100 100,
           LogsQueried JobCompleted 100 100,
           ErrorLogged ''error putting current block to db''], Done emptyDB)"
    by (simp add: processEventsIteration_def blockNumber_examples sb f scanKind_rpcQuiet
          emptyDB_simps putLastBlock_def PutErr_rejectingStorage)
  from sb quiet short rej show ?thesis
    by (simp add: emptyDB_simps blockNumber_examples)
qed

text \<open>
  C9, amended: on the first iteration, with no checkpoint stored and the ledger at
  height \<open>C\<close> (100 in the spec's scenario), when every log returned for block \<open>C\<close>
  carries the payload the slice expressions of its kind need and the store accepts the
  put of the checkpoint, the loop takes \<open>C - 1\<close> as the checkpoint, sends the three
  per-kind log queries for the single-block range from \<open>C\<close> to \<open>C\<close>, and stores
  \<open>C\<close> as the checkpoint.
\<close>

theorem first_iteration_scans_current_block:
  assumes "chainBucket db lastBlockKey = None"
    and "blockNumber r = Inr cb"
    and "answersDecodable r (SetBytes cb) (SetBytes cb)"
    and "PutErr st lastBlockKey cb = None"
  shows "fromBlockOf db (SetBytes cb) = (SetBytes cb - 1) + 1
         \<and> (\<exists>es db'. processEventsIteration st r db = (es, Done db')
               \<and> filter isQuery es =
                   [LogsQueried JobCreated (SetBytes cb) (SetBytes cb),
                    LogsQueried JobFunded (SetBytes cb) (SetBytes cb),
                    LogsQueried JobCompleted (SetBytes cb) (SetBytes cb)]
               \<and> checkpoint db' = Some (SetBytes cb))"
proof -
  have f: "fromBlockOf db (SetBytes cb) = SetBytes cb"
    using assms(1) by (simp add: fromBlockOf_def)
  from iteration_scans [of r cb db st] assms(2,3) f obtain es b3
    where it: "processEventsIteration st r db
                 = (es, Done (snd (putLastBlock st (db\<lparr>jobBucket := b3\<rparr>) cb)))"
      and qs: "filter isQuery es =
                   [LogsQueried JobCreated (SetBytes cb) (SetBytes cb),
                    LogsQueried JobFunded (SetBytes cb) (SetBytes cb),
                    LogsQueried JobCompleted (SetBytes cb) (SetBytes cb)]"
    by auto
  have "checkpoint (snd (putLastBlock st (db\<lparr>jobBucket := b3\<rparr>) cb)) = Some (SetBytes cb)"
    using assms(4) by (simp add: checkpoint_def chainBucket_putLastBlock)
  with it qs f show ?thesis by auto
qed

theorem first_iteration_scans_current_block_witness:
  "chainBucket emptyDB lastBlockKey = None
   \<and> blockNumber (rpcQuiet [0x64]) = Inr [0x64]
   \<and> answersDecodable (rpcQuiet [0x64]) (SetBytes [0x64]) (SetBytes [0x64])
   \<and> PutErr refStorage lastBlockKey [0x64] = None
   \<and> SetBytes [0x64] = 100
   \<and> fromBlockOf emptyDB 100 = 99 + 1
   \<and> checkpoint (db_of (snd (processEventsIteration refStorage (rpcQuiet [0x64]) emptyDB)))
       = Some 100"
proof -
  have h1: "chainBucket emptyDB lastBlockKey = None"
    by (simp add: emptyDB_def)
  have h2: "blockNumber (rpcQuiet [0x64]) = Inr [0x64]"
    by (simp add: rpcQuiet_def)
  have h3: "answersDecodable (rpcQuiet [0x64]) (SetBytes [0x64]) (SetBytes [0x64])"
    by (simp add: answersDecodable_def answerDecodable_def rpcQuiet_def)
  have h4: "PutErr refStorage lastBlockKey [0x64] = None"
    by (simp add: refStorage_def)
  have sb: "SetBytes [0x64] = 100"
    by (simp add: SetBytes_simps)
  from first_iteration_scans_current_block [OF h1 h2 h3 h4]
  have "fromBlockOf emptyDB 100 = 99 + 1"
    and "checkpoint (db_of (snd (processEventsIteration refStorage (rpcQuiet [0x64]) emptyDB)))
       = Some 100"
    by (auto simp: sb)
  with h1 h2 h3 h4 sb show ?thesis by simp
qed

section \<open>Merging events into the job bucket\<close>

lemma putJob_encode_error:
  "json_Marshal st j = Inl e \<Longrightarrow> putJob st b a j = ([ErrorLogged ''error marshaling job''], b)"
  by (simp add: putJob_def)

lemma putJob_written:
  "json_Marshal st j = Inr bs \<Longrightarrow> PutErr st a bs = None \<Longrightarrow> putJob st b a j = ([], b(a \<mapsto> bs))"
  by (simp add: putJob_def)

lemma putJob_rejected:
  "json_Marshal st j = Inr bs \<Longrightarrow> PutErr st a bs = Some e
     \<Longrightarrow> putJob st b a j = ([ErrorLogged ''error putting job to db''], b)"
  by (simp add: putJob_def)

lemma putJob_cases:
  obtains (unchanged) "snd (putJob st b a j) = b" "fst (putJob st b a j) \<noteq> []"
  | (written) bs where "json_Marshal st j = Inr bs" "putJob st b a j = ([], b(a \<mapsto> bs))"
  by (cases "json_Marshal st j"; cases "PutErr st a (projr (json_Marshal st j))")
     (auto simp: putJob_def)

lemma jobCreatedBody_eq:
  "slice (Data l) 0 32 = Some a \<Longrightarrow> slice (Data l) 32 64 = Some c
     \<Longrightarrow> jobCreatedBody st b l = Some (putJob st b (BytesToAddress a) (createdRecord st b a c))"
  by (simp add: jobCreatedBody_def createdRecord_def Let_def)

lemma jobFundedBody_eq:
  "slice (Data l) 0 32 = Some a
     \<Longrightarrow> jobFundedBody st b l = Some (putJob st b (BytesToAddress a) (fundedRecord st b a))"
  by (simp add: jobFundedBody_def fundedRecord_def Let_def)

lemma getJob_stored:
  "codecRoundTrips st \<Longrightarrow> json_Marshal st j = Inr bs \<Longrightarrow> getJob st (b(a \<mapsto> bs)) a = j"
  by (simp add: getJob_def codecRoundTrips_def)

lemma storedJob_stored:
  "codecRoundTrips st \<Longrightarrow> json_Marshal st j = Inr bs \<Longrightarrow> storedJob st (b(a \<mapsto> bs)) a = Some j"
  by (simp add: storedJob_def codecRoundTrips_def)

lemma storedJob_other: "k \<noteq> a \<Longrightarrow> storedJob st (b(a \<mapsto> bs)) k = storedJob st b k"
  by (simp add: storedJob_def)

text \<open>Writing the record a body builds, and building it again from what was written.\<close>

lemma createdRecord_again:
  assumes "codecRoundTrips st" "json_Marshal st (createdRecord st b a c) = Inr bs"
  shows "createdRecord st (b(BytesToAddress a \<mapsto> bs)) a c = createdRecord st b a c"
proof -
  have "getJob st (b(BytesToAddress a \<mapsto> bs)) (BytesToAddress a) = createdRecord st b a c"
    using assms by (rule getJob_stored)
  then show ?thesis
    by (simp add: createdRecord_def)
qed

lemma fundedRecord_again:
  assumes "codecRoundTrips st" "json_Marshal st (fundedRecord st b a) = Inr bs"
  shows "fundedRecord st (b(BytesToAddress a \<mapsto> bs)) a = fundedRecord st b a"
proof -
  have "getJob st (b(BytesToAddress a \<mapsto> bs)) (BytesToAddress a) = fundedRecord st b a"
    using assms by (rule getJob_stored)
  then show ?thesis
    by (simp add: fundedRecord_def)
qed

lemma jobCreatedBody_fixed:
  assumes rt: "codecRoundTrips st" and step: "jobCreatedBody st b l = Some (es, b1)"
  shows "jobCreatedBody st b1 l = Some (es, b1)"
proof -
  from step obtain a c where sl: "slice (Data l) 0 32 = Some a" "slice (Data l) 32 64 = Some c"
    by (auto simp: jobCreatedBody_def split: option.splits)
  let ?A = "BytesToAddress a" and ?J = "createdRecord st b a c"
  from step sl have put: "putJob st b ?A ?J = (es, b1)"
    by (simp add: jobCreatedBody_eq)
  show ?thesis
  proof (cases "json_Marshal st ?J")
    case (Inl e)
    with put have "b1 = b" "es = [ErrorLogged ''error marshaling job'']"
      by (simp_all add: putJob_encode_error)
    with step show ?thesis by simp
  next
    case (Inr bs)
    show ?thesis
    proof (cases "PutErr st ?A bs")
      case (Some e)
      with Inr put have "b1 = b"
        by (simp add: putJob_rejected)
      with step show ?thesis by simp
    next
      case None
      with Inr put have b1: "b1 = b(?A \<mapsto> bs)" and es: "es = []"
        by (simp_all add: putJob_written)
      have "createdRecord st b1 a c = ?J"
        unfolding b1 using rt Inr by (rule createdRecord_again)
      then have "jobCreatedBody st b1 l = Some (putJob st b1 ?A ?J)"
        using sl by (simp add: jobCreatedBody_eq)
      also have "putJob st b1 ?A ?J = ([], b1(?A \<mapsto> bs))"
        using Inr None by (rule putJob_written)
      also have "b1(?A \<mapsto> bs) = b1"
        by (simp add: b1)
      finally show ?thesis by (simp add: es)
    qed
  qed
qed

lemma jobFundedBody_fixed:
  assumes rt: "codecRoundTrips st" and step: "jobFundedBody st b l = Some (es, b1)"
  shows "jobFundedBody st b1 l = Some (es, b1)"
proof -
  from step obtain a where sl: "slice (Data l) 0 32 = Some a"
    by (auto simp: jobFundedBody_def split: option.splits)
  let ?A = "BytesToAddress a" and ?J = "fundedRecord st b a"
  from step sl have put: "putJob st b ?A ?J = (es, b1)"
    by (simp add: jobFundedBody_eq)
  show ?thesis
  proof (cases "json_Marshal st ?J")
    case (Inl e)
    with put have "b1 = b"
      by (simp add: putJob_encode_error)
    with step show ?thesis by simp
  next
    case (Inr bs)
    show ?thesis
    proof (cases "PutErr st ?A bs")
      case (Some e)
      with Inr put have "b1 = b"
        by (simp add: putJob_rejected)
      with step show ?thesis by simp
    next
      case None
      with Inr put have b1: "b1 = b(?A \<mapsto> bs)" and es: "es = []"
        by (simp_all add: putJob_written)
      have "fundedRecord st b1 a = ?J"
        unfolding b1 using rt Inr by (rule fundedRecord_again)
      then have "jobFundedBody st b1 l = Some (putJob st b1 ?A ?J)"
        using sl by (simp add: jobFundedBody_eq)
      also have "putJob st b1 ?A ?J = ([], b1(?A \<mapsto> bs))"
        using Inr None by (rule putJob_written)
      also have "b1(?A \<mapsto> bs) = b1"
        by (simp add: b1)
      finally show ?thesis by (simp add: es)
    qed
  qed
qed

lemma updateLogs_single:
  "updateLogs body [l] b = (case body b l of None \<Rightarrow> b | Some (es, b1) \<Rightarrow> b1)"
  by (simp add: updateLogs_def split: option.splits prod.splits)

lemma updateLogs_replayed:
  assumes "\<And>es b1. body b l = Some (es, b1) \<Longrightarrow> body b1 l = Some (es, b1)"
  shows "updateLogs body [l, l] b = updateLogs body [l] b"
    and "updateLogs body [l] (updateLogs body [l] b) = updateLogs body [l] b"
proof -
  show "updateLogs body [l, l] b = updateLogs body [l] b"
  proof (cases "body b l")
    case None
    then show ?thesis by (simp add: updateLogs_def)
  next
    case (Some p)
    obtain es b1 where p: "p = (es, b1)" by (cases p)
    with Some have first: "body b l = Some (es, b1)" by simp
    then have "body b1 l = Some (es, b1)" by (rule assms)
    with first show ?thesis by (simp add: updateLogs_def)
  qed
  show "updateLogs body [l] (updateLogs body [l] b) = updateLogs body [l] b"
  proof (cases "body b l")
    case None
    then show ?thesis by (simp add: updateLogs_single)
  next
    case (Some p)
    obtain es b1 where p: "p = (es, b1)" by (cases p)
    with Some have first: "body b l = Some (es, b1)" by simp
    then have "body b1 l = Some (es, b1)" by (rule assms)
    with first show ?thesis by (simp add: updateLogs_single)
  qed
qed

section \<open>The reference serialization round-trips\<close>

lemma byteState_stateByte: "byteState (stateByte s) = Some s"
  by (cases s) (simp_all add: byteState_def stateByte_def)

lemma unat_len_byte: "n < 256 \<Longrightarrow> unat (of_nat n :: 8 word) = n"
  by (simp add: unat_of_nat)

lemma refUnmarshal_refMarshal: "refMarshal j = Inr bs \<Longrightarrow> refUnmarshal bs t = (None, j)"
  by (cases j)
     (auto simp: refMarshal_def refUnmarshal_def byteState_stateByte unat_len_byte split: if_splits)

lemma refStorage_roundTrips: "codecRoundTrips refStorage"
  by (simp add: codecRoundTrips_def refStorage_def refUnmarshal_refMarshal)

lemma jobCreatedBody_example:
  "jobCreatedBody refStorage Map.empty (Log (wordAA @ wordBB))
     = Some ([], Map.empty(addrAA \<mapsto> bytesAA jobPendingState))"
  using refMarshal_jobAA [of jobPendingState]
  by (simp add: jobCreatedBody_def slice_word_simps BytesToAddress_word_simps getJob_def
        putJob_def refStorage_def zeroJob_def jobAA_def)

section \<open>The merge-upsert is idempotent\<close>

text \<open>
  C4: for every state of the job record store and every Created or Funded event,
  applying that event's merge-upsert twice yields a stored record identical to applying
  it once. With a serialization that round-trips, replaying a log in a later
  transaction, or meeting it twice in one transaction, leaves the job bucket exactly as
  one application does; this covers the runs in which encoding or the put fails, and
  those in which the log is too short and the transaction is rolled back.
\<close>

theorem merge_upsert_idempotent:
  assumes "codecRoundTrips st"
  shows "updateLogs (jobCreatedBody st) [l] (updateLogs (jobCreatedBody st) [l] b)
           = updateLogs (jobCreatedBody st) [l] b
       \<and> updateLogs (jobCreatedBody st) [l, l] b = updateLogs (jobCreatedBody st) [l] b
       \<and> updateLogs (jobFundedBody st) [l] (updateLogs (jobFundedBody st) [l] b)
           = updateLogs (jobFundedBody st) [l] b
       \<and> updateLogs (jobFundedBody st) [l, l] b = updateLogs (jobFundedBody st) [l] b"
  using updateLogs_replayed [of "jobCreatedBody st" b l, OF jobCreatedBody_fixed [OF assms]]
    updateLogs_replayed [of "jobFundedBody st" b l, OF jobFundedBody_fixed [OF assms]]
  by simp

text \<open>
  An instance: the Created log for job \<^verbatim>\<open>0xAA\<close>, applied to an empty bucket once
  and twice, and the Funded log applied twice to a bucket without the record.
\<close>

theorem merge_upsert_idempotent_witness:
  "codecRoundTrips refStorage
   \<and> updateLogs (jobCreatedBody refStorage) [Log (wordAA @ wordBB)] Map.empty addrAA
       = Some (bytesAA jobPendingState)
   \<and> updateLogs (jobCreatedBody refStorage) [Log (wordAA @ wordBB), Log (wordAA @ wordBB)]
         Map.empty addrAA
       = Some (bytesAA jobPendingState)
   \<and> updateLogs (jobFundedBody refStorage) [Log wordAA, Log wordAA] Map.empty
       = updateLogs (jobFundedBody refStorage) [Log wordAA] Map.empty"
proof -
  have once: "updateLogs (jobCreatedBody refStorage) [Log (wordAA @ wordBB)] Map.empty addrAA
       = Some (bytesAA jobPendingState)"
    by (simp add: updateLogs_single jobCreatedBody_example)
  from merge_upsert_idempotent [OF refStorage_roundTrips, of "Log (wordAA @ wordBB)" Map.empty]
  have "updateLogs (jobCreatedBody refStorage) [Log (wordAA @ wordBB), Log (wordAA @ wordBB)]
         Map.empty = updateLogs (jobCreatedBody refStorage) [Log (wordAA @ wordBB)] Map.empty"
    by simp
  with once merge_upsert_idempotent [OF refStorage_roundTrips, of "Log wordAA" Map.empty]
    refStorage_roundTrips
  show ?thesis by simp
qed

section \<open>The state of a stored record\<close>

lemma getJob_storedJob: "storedJob st b a = Some j \<Longrightarrow> getJob st b a = j"
proof -
  assume "storedJob st b a = Some j"
  then obtain bs where "b a = Some bs" and "Some (snd (json_Unmarshal st bs zeroJob)) = Some j"
    unfolding storedJob_def by (cases "b a") simp_all
  then show ?thesis
    unfolding getJob_def by simp
qed

lemma rangeLogs_preserves:
  assumes "\<And>b l es b'. l \<in> set logs \<Longrightarrow> body b l = Some (es, b') \<Longrightarrow> P b \<Longrightarrow> P b'"
    and "P b" and "rangeLogs body logs b = (es, Some b')"
  shows "P b'"
  using assms
proof (induction logs arbitrary: b es)
  case Nil
  then show ?case by simp
next
  case (Cons l ls)
  from Cons.prems(3) obtain es1 b1 where hd: "body b l = Some (es1, b1)"
    by (cases "body b l") auto
  with Cons.prems(3) obtain es2 where tl: "rangeLogs body ls b1 = (es2, Some b')"
    by (cases "rangeLogs body ls b1") auto
  have "P b1"
    using hd Cons.prems(2) by (rule Cons.prems(1) [of l, simplified])
  moreover have "\<And>b l es b'. l \<in> set ls \<Longrightarrow> body b l = Some (es, b') \<Longrightarrow> P b \<Longrightarrow> P b'"
    using Cons.prems(1) by (meson list.set_intros(2))
  ultimately show ?case using tl Cons.IH by blast
qed

lemma updateLogs_preserves:
  assumes "\<And>b l es b'. l \<in> set logs \<Longrightarrow> body b l = Some (es, b') \<Longrightarrow> P b \<Longrightarrow> P b'"
    and "P b"
  shows "P (updateLogs body logs b)"
proof (cases "rangeLogs body logs b")
  case (Pair es r)
  show ?thesis
  proof (cases r)
    case None
    with Pair assms(2) show ?thesis by (simp add: updateLogs_def)
  next
    case (Some b')
    have "P b'"
      using assms(1,2) Pair [unfolded Some] by (rule rangeLogs_preserves)
    with Pair Some show ?thesis by (simp add: updateLogs_def)
  qed
qed

lemma scanKind_preserves:
  assumes "\<And>logs b l es b'. FilterLogs r f t kind = Inr logs \<Longrightarrow> l \<in> set logs
             \<Longrightarrow> body b l = Some (es, b') \<Longrightarrow> P b \<Longrightarrow> P b'"
    and "P b" and "snd (scanKind r kind msg body f t b) = Some b'"
  shows "P b'"
proof (cases "FilterLogs r f t kind")
  case (Inl e)
  with assms(2,3) show ?thesis by (simp add: scanKind_def)
next
  case (Inr logs)
  show ?thesis
  proof (cases "logs = []")
    case True
    with Inr assms(2,3) show ?thesis by (simp add: scanKind_def)
  next
    case False
    obtain es res where rl: "rangeLogs body logs b = (es, res)"
      by (cases "rangeLogs body logs b")
    with Inr False assms(3) have "res = Some b'"
      by (simp add: scanKind_def)
    with rl have "rangeLogs body logs b = (es, Some b')" by simp
    with assms(1) [OF Inr] assms(2) show ?thesis
      by (rule rangeLogs_preserves)
  qed
qed

lemma jobBucket_putLastBlock: "jobBucket (snd (putLastBlock st db cb)) = jobBucket db"
  by (simp add: putLastBlock_def split: option.splits)

text \<open>
  A property of the job bucket that each loop body keeps, on the logs the ledger
  returns for its kind, holds of the job bucket an iteration leaves, however it ends.
\<close>

lemma iteration_preserves:
  assumes c: "\<And>f t logs b l es b'. FilterLogs r f t JobCreated = Inr logs \<Longrightarrow> l \<in> set logs
             \<Longrightarrow> jobCreatedBody st b l = Some (es, b') \<Longrightarrow> P b \<Longrightarrow> P b'"
    and fd: "\<And>b l es b'. jobFundedBody st b l = Some (es, b') \<Longrightarrow> P b \<Longrightarrow> P b'"
    and cp: "\<And>b l es b'. jobCompletedBody st b l = Some (es, b') \<Longrightarrow> P b \<Longrightarrow> P b'"
    and start: "P (jobBucket db)"
  shows "P (jobBucket (db_of (snd (processEventsIteration st r db))))"
proof (cases "blockNumber r")
  case (Inl e)
  with start show ?thesis by (simp add: snd_iteration)
next
  case (Inr cb)
  let ?C = "SetBytes cb" and ?f = "fromBlockOf db (SetBytes cb)"
  show ?thesis
  proof (cases "?f \<le> ?C")
    case False
    with Inr start show ?thesis by (simp add: snd_iteration)
  next
    case True
    let ?s1 = "snd (scanKind r JobCreated ''error getting job created logs''
                      (jobCreatedBody st) ?f ?C (jobBucket db))"
    show ?thesis
    proof (cases ?s1)
      case None
      with Inr True start show ?thesis by (simp add: snd_iteration)
    next
      case (Some b1)
      have p1: "P b1"
        using c [of ?f ?C] start Some by (rule scanKind_preserves)
      let ?s2 = "snd (scanKind r JobFunded ''error getting job funded logs''
                        (jobFundedBody st) ?f ?C b1)"
      show ?thesis
      proof (cases ?s2)
        case None
        with Inr True Some p1 show ?thesis by (simp add: snd_iteration)
      next
        case (Some b2)
        note s2 = this
        have p2: "P b2"
          using fd p1 s2 by (rule scanKind_preserves)
        let ?s3 = "snd (scanKind r JobCompleted ''error getting job completed logs''
                          (jobCompletedBody st) ?f ?C b2)"
        show ?thesis
        proof (cases ?s3)
          case None
          with Inr True \<open>?s1 = Some b1\<close> s2 p2 show ?thesis by (simp add: snd_iteration)
        next
          case (Some b3)
          have "P b3"
            using cp p2 Some by (rule scanKind_preserves)
          with Inr True \<open>?s1 = Some b1\<close> s2 Some show ?thesis
            by (simp add: snd_iteration jobBucket_putLastBlock)
        qed
      qed
    qed
  qed
qed

lemma loop_preserves:
  assumes c: "\<And>r f t logs b l es b'. r \<in> set rs \<Longrightarrow> FilterLogs r f t JobCreated = Inr logs
             \<Longrightarrow> l \<in> set logs \<Longrightarrow> jobCreatedBody st b l = Some (es, b') \<Longrightarrow> P b \<Longrightarrow> P b'"
    and fd: "\<And>b l es b'. jobFundedBody st b l = Some (es, b') \<Longrightarrow> P b \<Longrightarrow> P b'"
    and cp: "\<And>b l es b'. jobCompletedBody st b l = Some (es, b') \<Longrightarrow> P b \<Longrightarrow> P b'"
    and start: "P (jobBucket db)"
  shows "P (jobBucket (db_of (snd (processEventsLoop st rs db))))"
  using c start
proof (induction rs arbitrary: db)
  case Nil
  then show ?case by simp
next
  case (Cons r rs)
  obtain es out where it: "processEventsIteration st r db = (es, out)"
    by (cases "processEventsIteration st r db")
  have cr: "P b'" if "FilterLogs r f t JobCreated = Inr logs" "l \<in> set logs"
      "jobCreatedBody st b l = Some (es, b')" "P b" for f t logs b l es b'
    using Cons.prems(1) [of r f t logs l b es b'] that by simp
  have "P (jobBucket (db_of (snd (processEventsIteration st r db))))"
    using cr fd cp Cons.prems(2) by (rule iteration_preserves [of r st P db])
  with it have step: "P (jobBucket (db_of out))" by simp
  show ?case
  proof (cases out)
    case (Panicked db')
    with it step show ?thesis by simp
  next
    case (Done db')
    obtain es' out' where lp: "processEventsLoop st rs db' = (es', out')"
      by (cases "processEventsLoop st rs db'")
    have crs: "P b'" if "r' \<in> set rs" "FilterLogs r' f t JobCreated = Inr logs" "l \<in> set logs"
        "jobCreatedBody st b l = Some (es, b')" "P b" for r' f t logs b l es b'
      using Cons.prems(1) [of r' f t logs l b es b'] that by simp
    from step Done have "P (jobBucket db')" by simp
    with crs have "P (jobBucket (db_of (snd (processEventsLoop st rs db'))))"
      by (rule Cons.IH)
    with it Done lp show ?thesis by simp
  qed
qed

lemma storedState_stored:
  "codecRoundTrips st \<Longrightarrow> json_Marshal st j = Inr bs
     \<Longrightarrow> storedState st (b(a \<mapsto> bs)) a = Some (JobState j)"
  by (simp add: storedState_def storedJob_stored)

lemma storedState_other: "k \<noteq> a \<Longrightarrow> storedState st (b(a \<mapsto> bs)) k = storedState st b k"
  by (simp add: storedState_def storedJob_other)

lemma JobState_fundedRecord: "JobState (fundedRecord st b a) = jobFundedState"
  by (simp add: fundedRecord_def)

lemma jobFundedBody_keeps_funded:
  assumes rt: "codecRoundTrips st" and step: "jobFundedBody st b l = Some (es, b')"
    and fd: "storedState st b k = Some jobFundedState"
  shows "storedState st b' k = Some jobFundedState"
proof -
  from step obtain a where sl: "slice (Data l) 0 32 = Some a"
    by (auto simp: jobFundedBody_def split: option.splits)
  let ?A = "BytesToAddress a" and ?J = "fundedRecord st b a"
  from step sl have put: "putJob st b ?A ?J = (es, b')"
    by (simp add: jobFundedBody_eq)
  show ?thesis
  proof (cases rule: putJob_cases [of st b ?A ?J])
    case unchanged
    with put fd show ?thesis by simp
  next
    case (written bs)
    with put have b': "b' = b(?A \<mapsto> bs)" by simp
    show ?thesis
    proof (cases "k = ?A")
      case True
      with rt written(1) show ?thesis
        by (simp add: b' storedState_stored JobState_fundedRecord)
    next
      case False
      with fd show ?thesis
        by (simp add: b' storedState_other)
    qed
  qed
qed

lemma storedState_deleted:
  "storedState st (b(a := None)) k = (if k = a then None else storedState st b k)"
  by (simp add: storedState_def storedJob_def)

lemma fundedOrAbsent_eq: "storedState st b' k = storedState st b k
    \<Longrightarrow> fundedOrAbsent st b k \<Longrightarrow> fundedOrAbsent st b' k"
  by (simp add: fundedOrAbsent_def)

lemma jobFundedBody_fundedOrAbsent:
  assumes rt: "codecRoundTrips st" and step: "jobFundedBody st b l = Some (es, b')"
    and fd: "fundedOrAbsent st b k"
  shows "fundedOrAbsent st b' k"
proof -
  from step obtain a where sl: "slice (Data l) 0 32 = Some a"
    by (auto simp: jobFundedBody_def split: option.splits)
  let ?A = "BytesToAddress a" and ?J = "fundedRecord st b a"
  from step sl have put: "putJob st b ?A ?J = (es, b')"
    by (simp add: jobFundedBody_eq)
  show ?thesis
  proof (cases rule: putJob_cases [of st b ?A ?J])
    case unchanged
    with put fd show ?thesis by simp
  next
    case (written bs)
    with put have b': "b' = b(?A \<mapsto> bs)" by simp
    show ?thesis
    proof (cases "k = ?A")
      case True
      with rt written(1) show ?thesis
        by (simp add: b' fundedOrAbsent_def storedState_stored JobState_fundedRecord)
    next
      case False
      with fd show ?thesis
        by (simp add: b' fundedOrAbsent_def storedState_other)
    qed
  qed
qed

lemma jobCompletedBody_fundedOrAbsent:
  assumes step: "jobCompletedBody st b l = Some (es, b')" and fd: "fundedOrAbsent st b k"
  shows "fundedOrAbsent st b' k"
proof -
  from step obtain a where sl: "slice (Data l) 0 32 = Some a"
    by (auto simp: jobCompletedBody_def split: option.splits)
  from step sl have "b' = b \<or> b' = b(BytesToAddress a := None)"
    by (auto simp: jobCompletedBody_def Let_def split: option.splits)
  then show ?thesis
  proof
    assume "b' = b"
    with fd show ?thesis by simp
  next
    assume "b' = b(BytesToAddress a := None)"
    with fd show ?thesis
      by (cases "k = BytesToAddress a") (simp_all add: fundedOrAbsent_def storedState_deleted)
  qed
qed

lemma jobCreatedBody_other_key:
  assumes other: "logAddress l \<noteq> Some k" and step: "jobCreatedBody st b l = Some (es, b')"
  shows "storedState st b' k = storedState st b k"
proof -
  from step obtain a c where sl: "slice (Data l) 0 32 = Some a" "slice (Data l) 32 64 = Some c"
    by (auto simp: jobCreatedBody_def split: option.splits)
  let ?A = "BytesToAddress a" and ?J = "createdRecord st b a c"
  from other sl have ne: "k \<noteq> ?A"
    by (auto simp: logAddress_def)
  from step sl have put: "putJob st b ?A ?J = (es, b')"
    by (simp add: jobCreatedBody_eq)
  show ?thesis
  proof (cases rule: putJob_cases [of st b ?A ?J])
    case unchanged
    with put show ?thesis by simp
  next
    case (written bs)
    with put have "b' = b(?A \<mapsto> bs)" by simp
    with ne show ?thesis by (simp add: storedState_other)
  qed
qed

lemma noCreatedFor_Inr:
  "noCreatedFor k r \<Longrightarrow> FilterLogs r f t JobCreated = Inr logs \<Longrightarrow> l \<in> set logs
     \<Longrightarrow> logAddress l \<noteq> Some k"
proof -
  assume n: "noCreatedFor k r" and q: "FilterLogs r f t JobCreated = Inr logs" and l: "l \<in> set logs"
  from n have "case FilterLogs r f t JobCreated of Inl err \<Rightarrow> True
      | Inr logs \<Rightarrow> list_all (\<lambda>l. logAddress l \<noteq> Some k) logs"
    unfolding noCreatedFor_def by blast
  with q have "list_all (\<lambda>l. logAddress l \<noteq> Some k) logs" by simp
  with l show ?thesis by (simp add: list_all_iff)
qed

text \<open>The closed examples on a bucket that holds the record of job \<^verbatim>\<open>0xAA\<close>.\<close>

lemma refUnmarshal_bytesAA: "refUnmarshal (bytesAA s) t = (None, jobAA s)"
  using refMarshal_jobAA by (rule refUnmarshal_refMarshal)

lemma storedJob_bucketAA: "storedJob refStorage (bucketAA (bytesAA s)) addrAA = Some (jobAA s)"
  by (simp add: storedJob_def bucketAA_def refStorage_def refUnmarshal_bytesAA)

lemma storedState_bucketAA: "storedState refStorage (bucketAA (bytesAA s)) addrAA = Some s"
  by (simp add: storedState_def storedJob_bucketAA jobAA_def)

lemma jobCreatedBody_bucketAA:
  "jobCreatedBody refStorage (bucketAA (bytesAA s)) (Log (wordAA @ wordBB))
     = Some ([], bucketAA (bytesAA jobPendingState))"
proof -
  have "createdRecord refStorage (bucketAA (bytesAA s)) wordAA wordBB = jobAA jobPendingState"
    by (simp add: createdRecord_def BytesToAddress_word_simps
          getJob_storedJob [OF storedJob_bucketAA] jobAA_def)
  moreover have "putJob refStorage b addrAA (jobAA jobPendingState)
      = ([], b(addrAA \<mapsto> bytesAA jobPendingState))" for b
    by (rule putJob_written) (simp_all add: refStorage_def refMarshal_jobAA)
  moreover have "slice (Data (Log (wordAA @ wordBB))) 0 32 = Some wordAA"
    and "slice (Data (Log (wordAA @ wordBB))) 32 64 = Some wordBB"
    by (simp_all add: slice_word_simps)
  ultimately show ?thesis
    by (simp add: jobCreatedBody_eq BytesToAddress_word_simps bucketAA_def)
qed

lemma logAddress_example: "logAddress (Log (wordBB @ wordAA)) = Some addrBB"
  by (simp add: logAddress_def slice_def BytesToAddress_word_simps)

lemma addrBB_neq_addrAA: "addrBB \<noteq> addrAA"
  by (simp add: addrAA_def addrBB_def)

text \<open>
  C5, as the spec states it: the state of a record only moves from Pending to Funded,
  and merging any event, a Created event included, into a record whose state is Funded
  never leaves a stored record whose state is Pending. The Created body assigns
  \<^verbatim>\<open>jobPendingState\<close> without looking at the state it read: a Created log for job
  \<^verbatim>\<open>0xAA\<close>, merged into the stored Funded record of that job, leaves it Pending.
\<close>

theorem created_event_regresses_funded_counterexample:
  "storedState refStorage (bucketAA (bytesAA jobFundedState)) addrAA = Some jobFundedState
   \<and> storedState refStorage
        (updateLogs (jobCreatedBody refStorage) [Log (wordAA @ wordBB)]
           (bucketAA (bytesAA jobFundedState))) addrAA
       = Some jobPendingState"
  by (simp add: updateLogs_single jobCreatedBody_bucketAA storedState_bucketAA)

text \<open>
  C5, amended: for every job record and every sequence of merged events that has no
  Created event for that record's own job address, the state never regresses: merging
  any such event (a Funded event, a Completed event, or a Created event for another
  address) into an existing record whose state is Funded never results in a stored
  record whose state is Pending. Over any run of iterations whose JobCreated answers
  carry no log for the address, a record stored as Funded is afterwards stored as
  Funded or is absent, and so is never stored as Pending; it is still Funded after any
  list of Created logs for other addresses and after any list of Funded logs, and is
  Funded or absent after any list of Completed logs. Stated for a serialization that
  round-trips.
\<close>

theorem funded_record_never_pending_again:
  assumes rt: "codecRoundTrips st"
    and fd: "storedState st (jobBucket db) k = Some jobFundedState"
    and nc: "list_all (noCreatedFor k) rs"
    and other: "list_all (\<lambda>l. logAddress l \<noteq> Some k) createdLogs"
  shows "fundedOrAbsent st (jobBucket (db_of (snd (processEvents abiParses st rs db)))) k
       \<and> storedState st (jobBucket (db_of (snd (processEvents abiParses st rs db)))) k
           \<noteq> Some jobPendingState
       \<and> storedState st (updateLogs (jobCreatedBody st) createdLogs (jobBucket db)) k
           = Some jobFundedState
       \<and> storedState st (updateLogs (jobFundedBody st) fundedLogs (jobBucket db)) k
           = Some jobFundedState
       \<and> fundedOrAbsent st (updateLogs (jobCompletedBody st) completedLogs (jobBucket db)) k"
proof -
  let ?P = "\<lambda>b. fundedOrAbsent st b k"
  let ?Q = "\<lambda>b. storedState st b k = Some jobFundedState"
  from fd have start: "?P (jobBucket db)"
    by (simp add: fundedOrAbsent_def)
  have cr: "?P b'" if "r \<in> set rs" "FilterLogs r f t JobCreated = Inr logs" "l \<in> set logs"
      "jobCreatedBody st b l = Some (es, b')" "?P b" for r f t logs b l es b'
  proof -
    from nc that(1) have "noCreatedFor k r" by (simp add: list_all_iff)
    then have "logAddress l \<noteq> Some k" using that(2,3) by (rule noCreatedFor_Inr)
    then have "storedState st b' k = storedState st b k" using that(4) by (rule jobCreatedBody_other_key)
    then show ?thesis using that(5) by (rule fundedOrAbsent_eq)
  qed
  have fu: "?P b'" if "jobFundedBody st b l = Some (es, b')" "?P b" for b l es b'
    using rt that by (rule jobFundedBody_fundedOrAbsent)
  have co: "?P b'" if "jobCompletedBody st b l = Some (es, b')" "?P b" for b l es b'
    using that by (rule jobCompletedBody_fundedOrAbsent)
  have "?P (jobBucket (db_of (snd (processEventsLoop st rs db))))"
    using cr fu co start by (rule loop_preserves [of rs st ?P db])
  with start have run: "?P (jobBucket (db_of (snd (processEvents abiParses st rs db))))"
    by (simp add: processEvents_def)
  then have np: "storedState st (jobBucket (db_of (snd (processEvents abiParses st rs db)))) k
           \<noteq> Some jobPendingState"
    by (auto simp: fundedOrAbsent_def)
  have crq: "?Q b'" if "l \<in> set createdLogs" "jobCreatedBody st b l = Some (es, b')" "?Q b"
    for b l es b'
  proof -
    from other that(1) have "logAddress l \<noteq> Some k" by (simp add: list_all_iff)
    then have "storedState st b' k = storedState st b k" using that(2) by (rule jobCreatedBody_other_key)
    with that(3) show ?thesis by simp
  qed
  have c1: "?Q (updateLogs (jobCreatedBody st) createdLogs (jobBucket db))"
    using crq fd by (rule updateLogs_preserves [of createdLogs "jobCreatedBody st" ?Q])
  have fuq: "?Q b'" if "l \<in> set fundedLogs" "jobFundedBody st b l = Some (es, b')" "?Q b"
    for b l es b'
    using rt that(2,3) by (rule jobFundedBody_keeps_funded)
  have c2: "?Q (updateLogs (jobFundedBody st) fundedLogs (jobBucket db))"
    using fuq fd by (rule updateLogs_preserves [of fundedLogs "jobFundedBody st" ?Q])
  have coq: "?P b'" if "l \<in> set completedLogs" "jobCompletedBody st b l = Some (es, b')" "?P b"
    for b l es b'
    using that(2,3) by (rule jobCompletedBody_fundedOrAbsent)
  have c3: "?P (updateLogs (jobCompletedBody st) completedLogs (jobBucket db))"
    using coq start by (rule updateLogs_preserves [of completedLogs "jobCompletedBody st" ?P])
  from run np c1 c2 c3 show ?thesis by simp
qed

text \<open>
  An instance: the Funded record of job \<^verbatim>\<open>0xAA\<close>, and an iteration that merges a
  Created log for job \<^verbatim>\<open>0xBB\<close>, a Funded log for job \<^verbatim>\<open>0xAA\<close> and a Completed log
  for job \<^verbatim>\<open>0xBB\<close>; the record of \<^verbatim>\<open>0xAA\<close> is still Funded. A Completed log for
  \<^verbatim>\<open>0xAA\<close> itself removes the record.
\<close>

theorem funded_record_never_pending_again_witness:
  "codecRoundTrips refStorage
   \<and> storedState refStorage (jobBucket dbFundedAA) addrAA = Some jobFundedState
   \<and> list_all (noCreatedFor addrAA) [rpcOtherJob]
   \<and> FilterLogs rpcOtherJob 55 55 JobCreated = Inr [Log (wordBB @ wordAA)]
   \<and> logAddress (Log (wordBB @ wordAA)) = Some addrBB
   \<and> storedState refStorage
        (jobBucket (db_of (snd (processEvents True refStorage [rpcOtherJob] dbFundedAA)))) addrAA
       = Some jobFundedState
   \<and> storedState refStorage
        (updateLogs (jobCreatedBody refStorage) [Log (wordBB @ wordAA)] (jobBucket dbFundedAA))
        addrAA
       = Some jobFundedState
   \<and> storedState refStorage
        (updateLogs (jobFundedBody refStorage) [Log wordAA] (jobBucket dbFundedAA)) addrAA
       = Some jobFundedState
   \<and> storedState refStorage
        (updateLogs (jobCompletedBody refStorage) [Log wordAA] (jobBucket dbFundedAA)) addrAA
       = None"
proof -
  have h2: "storedState refStorage (jobBucket dbFundedAA) addrAA = Some jobFundedState"
    by (simp add: dbFundedAA_def storedState_bucketAA)
  have q: "FilterLogs rpcOtherJob f t JobCreated = Inr [Log (wordBB @ wordAA)]" for f t
    by (simp add: rpcOtherJob_def)
  have h4: "list_all (\<lambda>l. logAddress l \<noteq> Some addrAA) [Log (wordBB @ wordAA)]"
    by (simp add: logAddress_example addrBB_neq_addrAA)
  then have "noCreatedFor addrAA rpcOtherJob"
    by (simp add: noCreatedFor_def q)
  then have h3: "list_all (noCreatedFor addrAA) [rpcOtherJob]"
    by simp
  note inst = funded_record_never_pending_again [OF refStorage_roundTrips h2 h3 h4,
      where abiParses = True and fundedLogs = "[Log wordAA]" and completedLogs = "[Log wordAA]"]
  have run: "storedState refStorage
        (jobBucket (db_of (snd (processEvents True refStorage [rpcOtherJob] dbFundedAA)))) addrAA
       = Some jobFundedState"
    by code_simp
  have gone: "storedState refStorage
        (updateLogs (jobCompletedBody refStorage) [Log wordAA] (jobBucket dbFundedAA)) addrAA
       = None"
    by code_simp
  from inst run gone h2 h3 q [of 55 55] refStorage_roundTrips logAddress_example
  show ?thesis by simp
qed

section \<open>Serialization failures\<close>

text \<open>
  C7, as the spec states it: for every job-record write triggered by a Created or
  Funded event, a serialization failure of the record (encode or decode) is logged,
  the write is abandoned and the stored record is left unchanged; a record whose stored
  bytes fail to decode is never overwritten. The bodies call \<^verbatim>\<open>json.Unmarshal\<close>
  without looking at its error: with bytes under job \<^verbatim>\<open>0xAA\<close> that do not decode,
  a Created log for \<^verbatim>\<open>0xAA\<close> logs nothing and replaces the stored bytes.
\<close>

theorem undecodable_record_overwritten_counterexample:
  "bucketAA [9] addrAA = Some [9]
   \<and> json_Unmarshal refStorage [9] zeroJob = (Some (Error ''unexpected end of input''), zeroJob)
   \<and> updateLogs (jobCreatedBody refStorage) [Log (wordAA @ wordBB)] (bucketAA [9]) addrAA
       = Some (bytesAA jobPendingState)
   \<and> bytesAA jobPendingState \<noteq> [9]"
proof -
  have un: "json_Unmarshal refStorage [9] zeroJob
      = (Some (Error ''unexpected end of input''), zeroJob)"
    by (simp add: refStorage_def refUnmarshal_def)
  have "getJob refStorage (bucketAA [9]) addrAA = zeroJob"
    by (simp add: getJob_def bucketAA_def un)
  then have "createdRecord refStorage (bucketAA [9]) wordAA wordBB = jobAA jobPendingState"
    by (simp add: createdRecord_def BytesToAddress_word_simps zeroJob_def jobAA_def)
  moreover have "putJob refStorage b addrAA (jobAA jobPendingState)
      = ([], b(addrAA \<mapsto> bytesAA jobPendingState))" for b
    by (rule putJob_written) (simp_all add: refStorage_def refMarshal_jobAA)
  moreover have "slice (Data (Log (wordAA @ wordBB))) 0 32 = Some wordAA"
    and "slice (Data (Log (wordAA @ wordBB))) 32 64 = Some wordBB"
    by (simp_all add: slice_word_simps)
  ultimately have "jobCreatedBody refStorage (bucketAA [9]) (Log (wordAA @ wordBB))
      = Some ([], (bucketAA [9])(addrAA \<mapsto> bytesAA jobPendingState))"
    by (simp add: jobCreatedBody_eq BytesToAddress_word_simps)
  then have "updateLogs (jobCreatedBody refStorage) [Log (wordAA @ wordBB)] (bucketAA [9]) addrAA
       = Some (bytesAA jobPendingState)"
    by (simp add: updateLogs_single)
  with un show ?thesis
    by (simp add: bucketAA_def bytesAA_def)
qed

text \<open>
  C7, amended: for every job-record write triggered by a Created or Funded event, an
  encode failure of the record is logged (\<^verbatim>\<open>error marshaling job\<close>), the write is
  abandoned and the bucket is left as it was: an encode failure never results in a
  store write. Stated for the Created body and for the Funded body separately, each for
  any store, any bucket and any log that carries the payload the slice expressions of
  the body need, when the record the body builds fails to encode.
\<close>

theorem encode_failure_abandons_write:
  "(slice (Data lc) 0 32 = Some a \<and> slice (Data lc) 32 64 = Some c
      \<and> json_Marshal st (createdRecord st b a c) = Inl e
     \<longrightarrow> jobCreatedBody st b lc = Some ([ErrorLogged ''error marshaling job''], b)
         \<and> updateLogs (jobCreatedBody st) [lc] b = b)
   \<and> (slice (Data lf) 0 32 = Some a' \<and> json_Marshal st' (fundedRecord st' b' a') = Inl e'
     \<longrightarrow> jobFundedBody st' b' lf = Some ([ErrorLogged ''error marshaling job''], b')
         \<and> updateLogs (jobFundedBody st') [lf] b' = b')"
proof (intro conjI impI)
  assume h: "slice (Data lc) 0 32 = Some a \<and> slice (Data lc) 32 64 = Some c
      \<and> json_Marshal st (createdRecord st b a c) = Inl e"
  then show c: "jobCreatedBody st b lc = Some ([ErrorLogged ''error marshaling job''], b)"
    by (simp add: jobCreatedBody_eq putJob_encode_error)
  then show "updateLogs (jobCreatedBody st) [lc] b = b"
    by (simp add: updateLogs_single)
next
  assume h: "slice (Data lf) 0 32 = Some a' \<and> json_Marshal st' (fundedRecord st' b' a') = Inl e'"
  then show f: "jobFundedBody st' b' lf = Some ([ErrorLogged ''error marshaling job''], b')"
    by (simp add: jobFundedBody_eq putJob_encode_error)
  then show "updateLogs (jobFundedBody st') [lf] b' = b'"
    by (simp add: updateLogs_single)
qed

text \<open>
  An instance, on a store whose encoder fails: a Created log over the stored record of
  job \<^verbatim>\<open>0xAA\<close>, and a Funded log on an empty bucket.
\<close>

theorem encode_failure_abandons_write_witness:
  "slice (Data (Log (wordAA @ wordBB))) 0 32 = Some wordAA
   \<and> slice (Data (Log (wordAA @ wordBB))) 32 64 = Some wordBB
   \<and> json_Marshal brokenStorage
        (createdRecord brokenStorage (bucketAA (bytesAA jobPendingState)) wordAA wordBB)
       = Inl (Error ''unsupported value'')
   \<and> jobCreatedBody brokenStorage (bucketAA (bytesAA jobPendingState)) (Log (wordAA @ wordBB))
       = Some ([ErrorLogged ''error marshaling job''], bucketAA (bytesAA jobPendingState))
   \<and> slice (Data (Log wordAA)) 0 32 = Some wordAA
   \<and> json_Marshal brokenStorage (fundedRecord brokenStorage Map.empty wordAA)
       = Inl (Error ''unsupported value'')
   \<and> jobFundedBody brokenStorage Map.empty (Log wordAA)
       = Some ([ErrorLogged ''error marshaling job''], Map.empty)
   \<and> updateLogs (jobFundedBody brokenStorage) [Log wordAA] Map.empty = Map.empty"
proof -
  have h1: "slice (Data (Log (wordAA @ wordBB))) 0 32 = Some wordAA"
    and h2: "slice (Data (Log (wordAA @ wordBB))) 32 64 = Some wordBB"
    and h4: "slice (Data (Log wordAA)) 0 32 = Some wordAA"
    by (simp_all add: slice_word_simps)
  have h3: "json_Marshal brokenStorage j = Inl (Error ''unsupported value'')" for j
    by (simp add: brokenStorage_def)
  from encode_failure_abandons_write [of "Log (wordAA @ wordBB)" wordAA wordBB brokenStorage
      "bucketAA (bytesAA jobPendingState)" "Error ''unsupported value''"
      "Log wordAA" wordAA brokenStorage Map.empty "Error ''unsupported value''"]
  show ?thesis using h1 h2 h3 h4 by simp
qed

section \<open>A Funded merge changes only the fields it owns\<close>

text \<open>
  C8: merging a Funded event for a job address that already has a stored record
  changes only the fields the event owns (the state becomes Funded, the job address is
  rewritten) and preserves every other field of the existing record, the consumer in
  particular; no other key of the bucket is touched. For the record
  \<^verbatim>\<open>{0xAA, consumer: 0xBB, state: Pending}\<close> a Funded log for \<^verbatim>\<open>0xAA\<close> yields exactly
  \<^verbatim>\<open>{0xAA, consumer: 0xBB, state: Funded}\<close>. Stated for a write that goes through
  (encoding and put succeed) and a serialization that round-trips.
\<close>

theorem funded_merge_preserves_other_fields:
  assumes "codecRoundTrips st"
    and "slice (Data l) 0 32 = Some a"
    and "storedJob st b (BytesToAddress a) = Some j"
    and "json_Marshal st (j\<lparr>JobAddress := BytesToAddress a, JobState := jobFundedState\<rparr>) = Inr bs"
    and "PutErr st (BytesToAddress a) bs = None"
  shows "\<exists>j'. storedJob st (updateLogs (jobFundedBody st) [l] b) (BytesToAddress a) = Some j'
           \<and> j' = j\<lparr>JobAddress := BytesToAddress a, JobState := jobFundedState\<rparr>
           \<and> JobState j' = jobFundedState \<and> JobAddress j' = BytesToAddress a
           \<and> Consumer j' = Consumer j \<and> JobSignature j' = JobSignature j
           \<and> Completed j' = Completed j
           \<and> (\<forall>k. k \<noteq> BytesToAddress a
                 \<longrightarrow> updateLogs (jobFundedBody st) [l] b k = b k)"
proof -
  let ?A = "BytesToAddress a"
  let ?J = "j\<lparr>JobAddress := ?A, JobState := jobFundedState\<rparr>"
  have rec: "fundedRecord st b a = ?J"
    using assms(3) by (simp add: fundedRecord_def getJob_storedJob)
  have "jobFundedBody st b l = Some ([], b(?A \<mapsto> bs))"
    using assms(2,4,5) by (simp add: jobFundedBody_eq rec putJob_written)
  then have upd: "updateLogs (jobFundedBody st) [l] b = b(?A \<mapsto> bs)"
    by (simp add: updateLogs_single)
  have "storedJob st (b(?A \<mapsto> bs)) ?A = Some ?J"
    using assms(1,4) by (rule storedJob_stored)
  with upd show ?thesis by simp
qed

text \<open>The instance of the spec's scenario.\<close>

theorem funded_merge_preserves_other_fields_witness:
  "codecRoundTrips refStorage
   \<and> slice (Data (Log wordAA)) 0 32 = Some wordAA
   \<and> BytesToAddress wordAA = addrAA
   \<and> storedJob refStorage (bucketAA (bytesAA jobPendingState)) addrAA
       = Some \<lparr>JobAddress = addrAA, Consumer = addrBB, JobSignature = [],
               JobState = jobPendingState, Completed = False\<rparr>
   \<and> PutErr refStorage addrAA (bytesAA jobFundedState) = None
   \<and> storedJob refStorage
        (updateLogs (jobFundedBody refStorage) [Log wordAA] (bucketAA (bytesAA jobPendingState)))
        addrAA
       = Some \<lparr>JobAddress = addrAA, Consumer = addrBB, JobSignature = [],
               JobState = jobFundedState, Completed = False\<rparr>"
proof -
  have h2: "slice (Data (Log wordAA)) 0 32 = Some wordAA"
    by (simp add: slice_word_simps)
  have h3: "storedJob refStorage (bucketAA (bytesAA jobPendingState)) (BytesToAddress wordAA)
      = Some (jobAA jobPendingState)"
    by (simp add: BytesToAddress_word_simps storedJob_bucketAA)
  have upd: "(jobAA jobPendingState)\<lparr>JobAddress := addrAA, JobState := jobFundedState\<rparr>
      = jobAA jobFundedState"
    by (simp add: jobAA_def)
  have h4: "json_Marshal refStorage ((jobAA jobPendingState)\<lparr>JobAddress := BytesToAddress wordAA,
      JobState := jobFundedState\<rparr>) = Inr (bytesAA jobFundedState)"
    by (simp add: BytesToAddress_word_simps upd refStorage_def refMarshal_jobAA)
  have h5: "PutErr refStorage (BytesToAddress wordAA) (bytesAA jobFundedState) = None"
    by (simp add: refStorage_def)
  from funded_merge_preserves_other_fields [OF refStorage_roundTrips h2 h3 h4 h5]
  have "storedJob refStorage
        (updateLogs (jobFundedBody refStorage) [Log wordAA] (bucketAA (bytesAA jobPendingState)))
        addrAA = Some (jobAA jobFundedState)"
    by (simp add: BytesToAddress_word_simps upd)
  with h2 h3 h5 refStorage_roundTrips show ?thesis
    by (simp add: BytesToAddress_word_simps jobAA_def)
qed

section \<open>The confirmation wait\<close>

lemma confirmationWait_break:
  "\<not> isPendingOf (TransactionByHash c txn k) \<Longrightarrow> confirmationWait c txn k = Some k"
  by (subst confirmationWait.simps) simp

lemma confirmationWait_step:
  "isPendingOf (TransactionByHash c txn k) \<Longrightarrow> confirmationWait c txn k = confirmationWait c txn (Suc k)"
  by (subst confirmationWait.simps) simp

lemma confirmationWait_from:
  assumes "\<forall>i. k \<le> i \<and> i < n \<longrightarrow> isPendingOf (TransactionByHash c txn i)"
    and "\<not> isPendingOf (TransactionByHash c txn n)" and "k \<le> n"
  shows "confirmationWait c txn k = Some n"
  using assms
proof (induction "n - k" arbitrary: k)
  case 0
  then have "k = n" by simp
  with 0 show ?case by (simp add: confirmationWait_break)
next
  case (Suc d)
  then have "k < n" by simp
  with Suc.prems have "isPendingOf (TransactionByHash c txn k)" by simp
  then have "confirmationWait c txn k = confirmationWait c txn (Suc k)"
    by (rule confirmationWait_step)
  also have "\<dots> = Some n"
  proof (rule Suc.hyps(1))
    show "d = n - Suc k" using Suc.hyps(2) by simp
    show "\<forall>i. Suc k \<le> i \<and> i < n \<longrightarrow> isPendingOf (TransactionByHash c txn i)"
      using Suc.prems(1) by simp
    show "\<not> isPendingOf (TransactionByHash c txn n)" by (rule Suc.prems(2))
    show "Suc k \<le> n" using \<open>k < n\<close> by simp
  qed
  finally show ?case .
qed

section \<open>The completion submission worker\<close>

lemma completeJobInfo_submitted:
  assumes "parseSignature c (jobSignatureBytes ji) = (v, r, s, err)"
    and "CompleteJob c (BytesToAddress (jobAddressBytes ji)) v r s = Inr txn"
    and "confirmationWait c txn 0 = Some k"
  shows "completeJobInfo c ji =
           Some ((case err of Some e \<Rightarrow> [ErrorLogged ''error parsing job signature''] | None \<Rightarrow> [])
                 @ [CompleteJobCalled 1000000 (BytesToAddress (jobAddressBytes ji)) v r s]
                 @ pollEffects c txn k)"
  using assms by (simp add: completeJobInfo_def Let_def)

text \<open>The reference ledger on the example queue items.\<close>

lemma BytesToAddress_addr_simps: "BytesToAddress addrAA = addrAA" "BytesToAddress addrBB = addrBB"
  by (simp_all add: BytesToAddress_def addrAA_def addrBB_def)

lemma refParse_sig65: "refParseSignature (sig65 w) = (27, sigR w, sigS, None)"
  by (simp add: refParseSignature_def sig65_def sigR_def sigS_def nth_append)

lemma refLedger_simps:
  "parseSignature refLedger = refParseSignature"
  "CompleteJob refLedger a v (sigR w) s = Inr (length a + unat w)"
  "TransactionByHash refLedger 20 k = Inl (Error ''connection refused'')"
  "TransactionByHash refLedger 21 k = Inr False"
  by (simp_all add: refLedger_def sigR_def)

lemma completeJobInfo_queuedAA:
  "completeJobInfo refLedger queuedAA
     = Some [CompleteJobCalled 1000000 addrAA 27 (sigR 0) sigS,
             StatusPolled 20 (Inl (Error ''connection refused''))]"
proof -
  have "confirmationWait refLedger 20 0 = Some 0"
    by (rule confirmationWait_break) (simp add: refLedger_simps isPendingOf_def)
  then show ?thesis
    using completeJobInfo_submitted [of refLedger queuedAA 27 "sigR 0" sigS None 20 0]
    by (simp add: queuedAA_def refLedger_simps refParse_sig65 BytesToAddress_addr_simps
          pollEffects_def)
qed

lemma completeJobInfo_queuedBB:
  "completeJobInfo refLedger queuedBB
     = Some [CompleteJobCalled 1000000 addrBB 27 (sigR 1) sigS, StatusPolled 21 (Inr False)]"
proof -
  have "confirmationWait refLedger 21 0 = Some 0"
    by (rule confirmationWait_break) (simp add: refLedger_simps isPendingOf_def)
  then show ?thesis
    using completeJobInfo_submitted [of refLedger queuedBB 27 "sigR 1" sigS None 21 0]
    by (simp add: queuedBB_def refLedger_simps refParse_sig65 BytesToAddress_addr_simps
          pollEffects_def)
qed

text \<open>
  C10: during the confirmation wait, when the transaction-status query itself
  returns an error, the error is discarded and the pending flag is \<^verbatim>\<open>false\<close>, so the
  worker leaves the wait loop and goes on to the next queued item, although the
  submitted transaction may still be pending on the ledger. After a successful
  submission, with every earlier poll answering pending, the poll that answers with an
  error is the last one: the wait loop breaks there, the effects of the item end with
  that poll, and the run continues with the rest of the queue.
\<close>

theorem status_error_ends_confirmation_wait:
  assumes "parseSignature c (jobSignatureBytes ji) = (v, r, s, err)"
    and "CompleteJob c (BytesToAddress (jobAddressBytes ji)) v r s = Inr txn"
    and "\<forall>i<k. TransactionByHash c txn i = Inr True"
    and "TransactionByHash c txn k = Inl e"
  shows "isPendingOf (TransactionByHash c txn k) = False
       \<and> confirmationWait c txn 0 = Some k
       \<and> (\<exists>es. completeJobInfo c ji = Some es
              \<and> last es = StatusPolled txn (Inl e)
              \<and> processJobCompletions c (ji # queue)
                  = (case processJobCompletions c queue of
                       None \<Rightarrow> None
                     | Some es' \<Rightarrow> Some (es @ es')))"
proof -
  have np: "\<not> isPendingOf (TransactionByHash c txn k)"
    using assms(4) by (simp add: isPendingOf_def)
  have "\<forall>i. 0 \<le> i \<and> i < k \<longrightarrow> isPendingOf (TransactionByHash c txn i)"
    using assms(3) by (simp add: isPendingOf_def)
  then have wait: "confirmationWait c txn 0 = Some k"
    using np by (rule confirmationWait_from) simp
  let ?es = "(case err of Some e \<Rightarrow> [ErrorLogged ''error parsing job signature''] | None \<Rightarrow> [])
                 @ [CompleteJobCalled 1000000 (BytesToAddress (jobAddressBytes ji)) v r s]
                 @ pollEffects c txn k"
  have one: "completeJobInfo c ji = Some ?es"
    using assms(1,2) wait by (rule completeJobInfo_submitted)
  have "last ?es = StatusPolled txn (Inl e)"
    using assms(4) by (simp add: pollEffects_def)
  moreover have "processJobCompletions c (ji # queue)
                  = (case processJobCompletions c queue of
                       None \<Rightarrow> None
                     | Some es' \<Rightarrow> Some (?es @ es'))"
    by (cases "processJobCompletions c queue") (simp_all add: one)
  ultimately show ?thesis using np wait one by blast
qed

text \<open>
  An instance: the status of the transaction for job \<^verbatim>\<open>0xAA\<close> cannot be queried; the
  worker polls once and submits the transaction for job \<^verbatim>\<open>0xBB\<close>.
\<close>

theorem status_error_ends_confirmation_wait_witness:
  "parseSignature refLedger (jobSignatureBytes queuedAA) = (27, sigR 0, sigS, None)
   \<and> CompleteJob refLedger (BytesToAddress (jobAddressBytes queuedAA)) 27 (sigR 0) sigS = Inr 20
   \<and> TransactionByHash refLedger 20 0 = Inl (Error ''connection refused'')
   \<and> confirmationWait refLedger 20 0 = Some 0
   \<and> processJobCompletions refLedger [queuedAA, queuedBB]
       = Some [CompleteJobCalled 1000000 addrAA 27 (sigR 0) sigS,
               StatusPolled 20 (Inl (Error ''connection refused'')),
               CompleteJobCalled 1000000 addrBB 27 (sigR 1) sigS,
               StatusPolled 21 (Inr False)]"
proof -
  have h1: "parseSignature refLedger (jobSignatureBytes queuedAA) = (27, sigR 0, sigS, None)"
    by (simp add: queuedAA_def refLedger_simps refParse_sig65)
  have h2: "CompleteJob refLedger (BytesToAddress (jobAddressBytes queuedAA)) 27 (sigR 0) sigS
      = Inr 20"
    by (simp add: queuedAA_def refLedger_simps BytesToAddress_addr_simps)
  have h3: "\<forall>i<0. TransactionByHash refLedger 20 i = Inr True"
    by simp
  have h4: "TransactionByHash refLedger 20 0 = Inl (Error ''connection refused'')"
    by (simp add: refLedger_simps)
  from status_error_ends_confirmation_wait [OF h1 h2 h3 h4, of "[queuedBB]"]
  have "confirmationWait refLedger 20 0 = Some 0"
    and "processJobCompletions refLedger [queuedAA, queuedBB]
       = Some [CompleteJobCalled 1000000 addrAA 27 (sigR 0) sigS,
               StatusPolled 20 (Inl (Error ''connection refused'')),
               CompleteJobCalled 1000000 addrBB 27 (sigR 1) sigS,
               StatusPolled 21 (Inr False)]"
    by (auto simp: completeJobInfo_queuedAA completeJobInfo_queuedBB)
  with h1 h2 h4 show ?thesis by simp
qed

text \<open>
  C6: the worker never has more than one unconfirmed completion transaction
  outstanding: after a successful submission it does not dequeue or submit the next
  item until the submitted transaction is no longer pending. The code at a queue of two
  items where the first status poll of the first transaction fails: the only answer
  about transaction 20 is an error, no poll has reported it as no longer pending, and
  the transaction for the second item is submitted next.
\<close>

theorem second_submission_while_first_unconfirmed:
  "processJobCompletions refLedger [queuedAA, queuedBB]
     = Some [CompleteJobCalled 1000000 addrAA 27 (sigR 0) sigS,
             StatusPolled 20 (Inl (Error ''connection refused'')),
             CompleteJobCalled 1000000 addrBB 27 (sigR 1) sigS,
             StatusPolled 21 (Inr False)]"
  by (simp add: completeJobInfo_queuedAA completeJobInfo_queuedBB)

text \<open>
  C2: for a dequeued completion request whose signature fails to decode, the worker
  logs the failure and drops the item without constructing or submitting a completion
  transaction. The code at an item with an empty signature: the failure is logged, and
  the contract binding is then called with the values the parser returned next to its
  error, and the resulting transaction is polled.
\<close>

theorem unparsable_signature_still_submitted:
  "parseSignature refLedger (jobSignatureBytes queuedUnsigned)
     = (0, sigS, sigS, Some (Error ''job signature incorrect length''))
   \<and> processJobCompletions refLedger [queuedUnsigned]
       = Some [ErrorLogged ''error parsing job signature'',
               CompleteJobCalled 1000000 addrAA 0 sigS sigS,
               StatusPolled 20 (Inl (Error ''connection refused''))]"
proof -
  have p: "parseSignature refLedger (jobSignatureBytes queuedUnsigned)
     = (0, sigS, sigS, Some (Error ''job signature incorrect length''))"
    by (simp add: queuedUnsigned_def refLedger_simps refParseSignature_def sigS_def)
  have s: "CompleteJob refLedger (BytesToAddress (jobAddressBytes queuedUnsigned)) 0 sigS sigS
      = Inr 20"
    by (simp add: queuedUnsigned_def refLedger_def sigS_def BytesToAddress_addr_simps)
  have w: "confirmationWait refLedger 20 0 = Some 0"
    by (rule confirmationWait_break) (simp add: refLedger_simps isPendingOf_def)
  from completeJobInfo_submitted [OF p s w] p show ?thesis
    by (simp add: pollEffects_def refLedger_simps queuedUnsigned_def BytesToAddress_addr_simps)
qed

end
